theory Spec2Isabelle
  imports Complex_Main "HOL-Library.Word"
begin

section \<open>Strings, errors and the console of the platform\<close>

text \<open>
  A string of the platform is a sequence of UTF-16 code units. The regular expressions of
  \<^verbatim>\<open>geminiService.ts\<close> carry no \<^verbatim>\<open>u\<close> flag, so they too work on code units.
  \<open>js\<close> embeds an ASCII literal of the source.
\<close>

type_synonym jschar = "16 word"
type_synonym jsstring = "jschar list"

definition jc :: "char \<Rightarrow> jschar" where
  "jc c = of_nat (of_char c)"

definition js :: "string \<Rightarrow> jsstring" where
  "js cs = map jc cs"

text \<open>\<^verbatim>\<open>Array.prototype.join\<close>.\<close>

fun join :: "jsstring \<Rightarrow> jsstring list \<Rightarrow> jsstring" where
  "join sep [] = []"
| "join sep [x] = x"
| "join sep (x # y # ys) = x @ sep @ join sep (y # ys)"

text \<open>\<^verbatim>\<open>String.prototype.startsWith\<close> and \<^verbatim>\<open>String.prototype.includes\<close>.\<close>

fun startsWith :: "jsstring \<Rightarrow> jsstring \<Rightarrow> bool" where
  "startsWith s [] = True"
| "startsWith [] (p # ps) = False"
| "startsWith (c # cs) (p # ps) = (c = p \<and> startsWith cs ps)"

fun includes_str :: "jsstring \<Rightarrow> jsstring \<Rightarrow> bool" where
  "includes_str [] sub = (sub = [])"
| "includes_str (c # cs) sub = (startsWith (c # cs) sub \<or> includes_str cs sub)"

text \<open>
  A thrown value. Every rejection that reaches the \<^verbatim>\<open>catch\<close> of \<^verbatim>\<open>generateWithFallback\<close>
  in this module is an error object (of the request library, of \<^verbatim>\<open>JSON.parse\<close>, a
  \<^verbatim>\<open>TypeError\<close> or a \<^verbatim>\<open>ReferenceError\<close>), so \<^verbatim>\<open>err.message\<close> is a string.
\<close>

datatype js_error =
    Error (message: jsstring)
  | SyntaxError (message: jsstring)
  | TypeError (message: jsstring)
  | ReferenceError (message: jsstring)
  | RequestError (message: jsstring)

text \<open>The lines written by \<^verbatim>\<open>console.log\<close>, \<^verbatim>\<open>console.warn\<close> and \<^verbatim>\<open>console.error\<close>.\<close>

datatype console_line =
    Log jsstring
  | Warn jsstring
  | ErrorLog jsstring js_error

section \<open>The fallback client\<close>

definition MODELS :: "jsstring list" where
  "MODELS =
    [ js ''gemini-flash-lite-latest'',
      js ''gemini-2.5-flash-lite-preview-09-2025'',
      js ''gemini-2.0-flash-lite-preview-02-05'',
      js ''gemini-2.0-flash'',
      js ''gemini-flash-latest'',
      js ''gemini-pro-latest'',
      js ''gemini-exp-1206'',
      js ''gemini-3-flash-preview'',
      js ''gemini-3-pro-preview'',
      js ''gemini-1.5-flash'',
      js ''gemini-1.5-pro'' ]"

text \<open>
  \<^verbatim>\<open>generateFn\<close> is a request: given a model identifier it settles, in the world \<open>'w\<close> outside
  the program (the network, the clock), either rejected with an error (\<open>Inl\<close>) or resolved
  with a result (\<open>Inr\<close>), and leaves the world changed. A request that never settles is not
  modelled.

  \<open>tryModels\<close> is the \<^verbatim>\<open>for (const model of MODELS)\<close> loop of \<^verbatim>\<open>generateWithFallback\<close> over
  the candidates that are left, with the local array \<^verbatim>\<open>errors\<close> and the console as explicit
  state; after the last candidate it is the \<^verbatim>\<open>throw\<close> that follows the loop.
\<close>

fun tryModels ::
  "(jsstring \<Rightarrow> 'w \<Rightarrow> (js_error + 'a) \<times> 'w) \<Rightarrow> jsstring list \<Rightarrow> jsstring list \<Rightarrow>
     console_line list \<Rightarrow> 'w \<Rightarrow> (js_error + 'a) \<times> console_line list \<times> 'w" where
  "tryModels generateFn [] errors con w =
     (Inl (Error (js ''All models failed. Details:\<newline>'' @ join (js ''\<newline>'') errors)), con, w)"
| "tryModels generateFn (model # rest) errors con w =
     (let con1 = con @ [Log (js ''Trying model: '' @ model)] in
      case generateFn model w of
        (Inr v, w1) \<Rightarrow> (Inr v, con1, w1)
      | (Inl err, w1) \<Rightarrow>
          (let msg = js ''Model '' @ model @ js '' failed: '' @ message err
           in tryModels generateFn rest (errors @ [msg]) (con1 @ [Warn msg]) w1))"

definition generateWithFallback ::
  "(jsstring \<Rightarrow> 'w \<Rightarrow> (js_error + 'a) \<times> 'w) \<Rightarrow> console_line list \<Rightarrow> 'w \<Rightarrow>
     (js_error + 'a) \<times> console_line list \<times> 'w" where
  "generateWithFallback generateFn con w = tryModels generateFn MODELS [] con w"

text \<open>
  The vocabulary of the properties below. \<open>fail_through generateFn ms w = Some (msgs, w')\<close>
  says that \<open>generateFn\<close>, invoked on the candidates \<open>ms\<close> one after the other from the world
  \<open>w\<close>, is rejected every time, with the error messages \<open>msgs\<close>, and leaves the world \<open>w'\<close>.
  \<open>failure_lines\<close> and \<open>attempt_log\<close> are the entries of \<^verbatim>\<open>errors\<close> and the console lines that
  such a run of failed attempts produces.
\<close>

fun fail_through ::
  "(jsstring \<Rightarrow> 'w \<Rightarrow> (js_error + 'a) \<times> 'w) \<Rightarrow> jsstring list \<Rightarrow> 'w \<Rightarrow> (jsstring list \<times> 'w) option" where
  "fail_through generateFn [] w = Some ([], w)"
| "fail_through generateFn (m # ms) w =
     (case generateFn m w of
        (Inr v, w1) \<Rightarrow> None
      | (Inl err, w1) \<Rightarrow>
          (case fail_through generateFn ms w1 of
             None \<Rightarrow> None
           | Some (msgs, w2) \<Rightarrow> Some (message err # msgs, w2)))"

fun failure_lines :: "jsstring list \<Rightarrow> jsstring list \<Rightarrow> jsstring list" where
  "failure_lines (m # ms) (e # es) = (js ''Model '' @ m @ js '' failed: '' @ e) # failure_lines ms es"
| "failure_lines ms es = []"

fun attempt_log :: "jsstring list \<Rightarrow> jsstring list \<Rightarrow> console_line list" where
  "attempt_log (m # ms) (e # es) =
     Log (js ''Trying model: '' @ m) # Warn (js ''Model '' @ m @ js '' failed: '' @ e) # attempt_log ms es"
| "attempt_log ms es = []"

text \<open>
  The scenario of the specification: candidates A, B, C (and a further D), where A and B are
  rejected with "rate limited" and "invalid arg" and C resolves with a payload. The world
  counts the requests issued.
\<close>

definition scenario_generateFn :: "jsstring \<Rightarrow> nat \<Rightarrow> (js_error + jsstring) \<times> nat" where
  "scenario_generateFn model n =
     (if model = js ''A'' then (Inl (RequestError (js ''rate limited'')), Suc n)
      else if model = js ''B'' then (Inl (RequestError (js ''invalid arg'')), Suc n)
      else (Inr (js ''{\"x\":1}''), Suc n))"

definition failing_generateFn :: "jsstring \<Rightarrow> nat \<Rightarrow> (js_error + jsstring) \<times> nat" where
  "failing_generateFn model n =
     (if model = js ''A'' then (Inl (RequestError (js ''rate limited'')), Suc n)
      else (Inl (RequestError (js ''invalid arg'')), Suc n))"

section \<open>Response shape selection\<close>

datatype tool = GoogleSearch

record 's config =
  systemInstruction :: jsstring
  tools :: "tool list option"
  responseMimeType :: "jsstring option"
  responseSchema :: "'s option"

definition getSmartConfig :: "jsstring \<Rightarrow> 's \<Rightarrow> jsstring \<Rightarrow> 's config" where
  "getSmartConfig model schema sysInstruction =
     (let isLite = includes_str model (js ''lite'');
          baseConfig =
            \<lparr> systemInstruction =
                (if isLite
                 then sysInstruction @ js ''\<newline>\<newline>CRITICAL: Output strictly valid JSON only. Do not wrap in markdown. Do not include any text before or after.''
                 else sysInstruction),
              tools = Some [GoogleSearch],
              responseMimeType = None,
              responseSchema = None \<rparr>
      in if \<not> isLite
         then baseConfig \<lparr> responseMimeType := Some (js ''application/json''), responseSchema := Some schema \<rparr>
         else baseConfig)"

section \<open>JSON extraction\<close>

text \<open>
  The class \<^verbatim>\<open>\s\<close> of a regular expression, which is also what \<^verbatim>\<open>String.prototype.trim\<close>
  strips: the white space and line terminator code points of the language.
\<close>

definition is_space :: "jschar \<Rightarrow> bool" where
  "is_space c \<longleftrightarrow>
     c = 0x09 \<or> c = 0x0A \<or> c = 0x0B \<or> c = 0x0C \<or> c = 0x0D \<or> c = 0x20 \<or> c = 0xA0 \<or>
     c = 0x1680 \<or> (0x2000 \<le> c \<and> c \<le> 0x200A) \<or> c = 0x2028 \<or> c = 0x2029 \<or>
     c = 0x202F \<or> c = 0x205F \<or> c = 0x3000 \<or> c = 0xFEFF"

definition trim :: "jsstring \<Rightarrow> jsstring" where
  "trim s = rev (dropWhile is_space (rev (dropWhile is_space s)))"

text \<open>
  \<^verbatim>\<open>text.match(/(\{[\s\S]*\}|\[[\s\S]*\])/)\<close>, as the matched substring \<^verbatim>\<open>match[0]\<close> or \<open>None\<close>
  for \<^verbatim>\<open>null\<close>. The start positions are tried from the left; at a position the first
  alternative is tried before the second; \<^verbatim>\<open>[\s\S]*\<close> takes any code units and is greedy,
  so the match, when there is one, runs to the last closing character of the text
  (\<open>upto_last\<close>).
\<close>

definition upto_last :: "jschar \<Rightarrow> jsstring \<Rightarrow> jsstring" where
  "upto_last c s = rev (dropWhile (\<lambda>x. x \<noteq> c) (rev s))"

fun match_json :: "jsstring \<Rightarrow> jsstring option" where
  "match_json [] = None"
| "match_json (c # cs) =
     (if c = jc CHR ''{'' \<and> jc CHR ''}'' \<in> set cs then Some (c # upto_last (jc CHR ''}'') cs)
      else if c = jc CHR ''['' \<and> jc CHR '']'' \<in> set cs then Some (c # upto_last (jc CHR '']'') cs)
      else match_json cs)"

text \<open>
  \<^verbatim>\<open>s.replace(/^P\s*/, '')\<close> for a literal \<open>P\<close>: the pattern is anchored at the start of the
  string, and the white space after \<open>P\<close> is taken greedily.
\<close>

definition replace_leading :: "jsstring \<Rightarrow> jsstring \<Rightarrow> jsstring" where
  "replace_leading p s = (if startsWith s p then dropWhile is_space (drop (length p) s) else s)"

text \<open>
  \<^verbatim>\<open>s.replace(/\s*```$/, '')\<close>: the leftmost position from which white space, then three
  backticks, then the end of the string follow; the match runs to the end, so what is left
  is the part before that position.
\<close>

fun replace_trailing_fence :: "jsstring \<Rightarrow> jsstring" where
  "replace_trailing_fence [] = []"
| "replace_trailing_fence (c # cs) =
     (if dropWhile is_space (c # cs) = js ''```'' then [] else c # replace_trailing_fence cs)"

definition cleanJson :: "jsstring \<Rightarrow> jsstring" where
  "cleanJson text =
     (case match_json text of
        Some m \<Rightarrow> m
      | None \<Rightarrow>
          replace_trailing_fence
            (replace_leading (js ''```'') (replace_leading (js ''```json'') (trim text))))"

text \<open>
  The vocabulary of the properties of \<open>cleanJson\<close>: \<^verbatim>\<open>String.prototype.endsWith\<close>, the three
  replacements of the fallback as one function, and the kind of value a JSON text can
  denote. \<^verbatim>\<open>JSON.parse\<close> is a built-in of the platform; of the JSON grammar only its first step
  is used here: after leading JSON white space, a text that parses to an object begins
  with an opening brace and a text that parses to an array begins with an opening bracket.
\<close>

definition endsWith :: "jsstring \<Rightarrow> jsstring \<Rightarrow> bool" where
  "endsWith s p = startsWith (rev s) (rev p)"

definition fence_chain :: "jsstring \<Rightarrow> jsstring" where
  "fence_chain s =
     replace_trailing_fence (replace_leading (js ''```'') (replace_leading (js ''```json'') s))"

datatype json_kind = ObjectText | ArrayText | OtherText

definition json_kind :: "jsstring \<Rightarrow> json_kind" where
  "json_kind s =
     (case dropWhile (\<lambda>c. c = 0x20 \<or> c = 0x09 \<or> c = 0x0A \<or> c = 0x0D) s of
        [] \<Rightarrow> OtherText
      | c # cs \<Rightarrow>
          if c = jc CHR ''{'' then ObjectText
          else if c = jc CHR ''['' then ArrayText
          else OtherText)"

section \<open>The platform and the use cases\<close>

text \<open>
  The values that \<^verbatim>\<open>JSON.parse\<close> returns and that the use cases hand to their callers. An
  object is the list of its properties in insertion order.
\<close>

datatype json =
    JNull
  | JBool bool
  | JNumber rat
  | JString jsstring
  | JArray "json list"
  | JObject "(jsstring \<times> json) list"

text \<open>
  What is sent to \<^verbatim>\<open>ai.models.generateContent\<close> and what comes back. Of the response only
  \<^verbatim>\<open>response.text\<close> is read by the functions modelled here; it may be \<^verbatim>\<open>undefined\<close>.
\<close>

record 's request =
  req_model :: jsstring
  req_contents :: jsstring
  req_config :: "'s config"

record response =
  response_text :: "jsstring option"

text \<open>
  The built-ins and the request library are parameters of the model: the request to the
  external service, which settles in the world \<open>'w\<close> and changes it; \<^verbatim>\<open>JSON.parse\<close> (\<open>Inl\<close> is
  the \<^verbatim>\<open>SyntaxError\<close> it throws) and \<^verbatim>\<open>JSON.stringify\<close>; \<^verbatim>\<open>Date.now()\<close>, read from the world,
  in milliseconds; \<^verbatim>\<open>parseInt\<close> (\<open>None\<close> is \<^verbatim>\<open>NaN\<close>) and \<^verbatim>\<open>Number.prototype.toString\<close> on the
  integers that are timestamps.
\<close>

record ('w, 's) platform =
  generateContent :: "'s request \<Rightarrow> 'w \<Rightarrow> (js_error + response) \<times> 'w"
  JSON_parse :: "jsstring \<Rightarrow> js_error + json"
  JSON_stringify :: "json \<Rightarrow> jsstring"
  Date_now :: "'w \<Rightarrow> int"
  parseInt :: "jsstring \<Rightarrow> int option"
  Number_toString :: "int \<Rightarrow> jsstring"

text \<open>
  The state of the page: the two entries of \<^verbatim>\<open>sessionStorage\<close> live in a map from keys to
  strings (\<^verbatim>\<open>getItem\<close> of a missing key is \<^verbatim>\<open>null\<close>, here \<open>None\<close>), beside the console and the
  world outside. A failing \<^verbatim>\<open>setItem\<close> (storage quota) is not modelled.
\<close>

record 'w state =
  sessionStorage :: "jsstring \<rightharpoonup> jsstring"
  console :: "console_line list"
  world :: 'w

definition CACHE_KEY :: jsstring where
  "CACHE_KEY = js ''wdim_market_status_cache''"

definition CACHE_TIME_KEY :: jsstring where
  "CACHE_TIME_KEY = js ''wdim_market_status_time''"

definition CACHE_DURATION :: int where
  "CACHE_DURATION = 30 * 60 * 1000"

definition EXPLAINER_SYSTEM_INSTRUCTION :: jsstring where
  "EXPLAINER_SYSTEM_INSTRUCTION = join (js ''\<newline>'')
    [ js ''You are a premium Indian stock market explanation engine.'',
      js ''Your role is to explain WHY a stock or index moved on a given trading day.'',
      js ''- India only (NSE/BSE).'',
      js ''- NO predictions, NO advice, NO target prices.'',
      js ''- Be factual, neutral, and unemotional. No hype, no fear.'',
      js ''- HOLIDAY & SESSION RULES:'',
      js ''  1. Determine if the market is closed (Weekend or NSE/BSE Holiday).'',
      js ''  2. If closed, clearly state it and STOP analysis.'',
      js ''- ANALYSIS LOGIC:'',
      js ''  - Consider NIFTY 50/Sector context, News, Volume, and Sentiment.'',
      js ''  - If no strong reason exists, state it is sentiment-driven or index-linked. Do NOT speculate.'',
      js ''- IMPACT CLASSIFICATION: No Impact, Low Impact, Medium Impact, High Impact.'',
      js ''- SENTIMENT CLASSIFICATION: Positive, Negative, Neutral.'',
      js ''- PREMIUM INSIGHT: Provide a 'premiumInsight' string that gives a deeper look into FII/DII flow or order book data if available.'' ]"

subsection \<open>The market-status check\<close>

text \<open>
  The two searches of the response text. Under the flag \<^verbatim>\<open>i\<close> an ASCII letter of the pattern
  matches its upper and its lower case form and nothing else (a code unit beyond ASCII is
  never folded to an ASCII one); \<open>ci_startsWith s p\<close> compares with a pattern \<open>p\<close> in upper
  case. Both return the text of group 1 of the leftmost match.
\<close>

definition upper_ascii :: "jschar \<Rightarrow> jschar" where
  "upper_ascii c = (if 0x61 \<le> c \<and> c \<le> 0x7A then c - 0x20 else c)"

text \<open>
  \<^verbatim>\<open>String.prototype.toUpperCase\<close> on the strings it is applied to here: a match of
  \<^verbatim>\<open>OPEN|CLOSED|UNKNOWN\<close> under \<^verbatim>\<open>i\<close>, which holds ASCII letters only.
\<close>

definition toUpperCase :: "jsstring \<Rightarrow> jsstring" where
  "toUpperCase s = map upper_ascii s"

fun ci_startsWith :: "jsstring \<Rightarrow> jsstring \<Rightarrow> bool" where
  "ci_startsWith s [] = True"
| "ci_startsWith [] (p # ps) = False"
| "ci_startsWith (c # cs) (p # ps) = (upper_ascii c = p \<and> ci_startsWith cs ps)"

text \<open>\<^verbatim>\<open>text.match(/STATUS:\s*(OPEN|CLOSED|UNKNOWN)/i)\<close>.\<close>

fun match_status :: "jsstring \<Rightarrow> jsstring option" where
  "match_status [] = None"
| "match_status (c # cs) =
     (if ci_startsWith (c # cs) (js ''STATUS:'') then
        (let r = dropWhile is_space (drop 7 (c # cs)) in
         if ci_startsWith r (js ''OPEN'') then Some (take 4 r)
         else if ci_startsWith r (js ''CLOSED'') then Some (take 6 r)
         else if ci_startsWith r (js ''UNKNOWN'') then Some (take 7 r)
         else match_status cs)
      else match_status cs)"

text \<open>
  \<^verbatim>\<open>text.match(/REASON:\s*(.*)/i)\<close>; the dot takes every code unit but a line terminator.
\<close>

definition is_line_terminator :: "jschar \<Rightarrow> bool" where
  "is_line_terminator c \<longleftrightarrow> c = 0x0A \<or> c = 0x0D \<or> c = 0x2028 \<or> c = 0x2029"

fun match_reason :: "jsstring \<Rightarrow> jsstring option" where
  "match_reason [] = None"
| "match_reason (c # cs) =
     (if ci_startsWith (c # cs) (js ''REASON:'')
      then Some (takeWhile (\<lambda>x. \<not> is_line_terminator x) (dropWhile is_space (drop 7 (c # cs))))
      else match_reason cs)"

text \<open>The request function that \<open>checkMarketStatus\<close> hands to the fallback client.\<close>

definition status_generateFn ::
  "('w, 's) platform \<Rightarrow> jsstring \<Rightarrow> jsstring \<Rightarrow> 'w \<Rightarrow> (js_error + json) \<times> 'w" where
  "status_generateFn p dateStr model w =
     (case generateContent p
             \<lparr> req_model = model,
               req_contents = js ''Analyze Indian stock market status for '' @ dateStr
                 @ js ''. Is it a trading holiday or weekend? Return STATUS: [OPEN/CLOSED/UNKNOWN] and REASON: [Reason].'',
               req_config = \<lparr> systemInstruction = EXPLAINER_SYSTEM_INSTRUCTION, tools = None,
                              responseMimeType = None, responseSchema = None \<rparr> \<rparr> w of
        (Inl err, w1) \<Rightarrow> (Inl err, w1)
      | (Inr response, w1) \<Rightarrow>
          (let responseText = (case response_text response of None \<Rightarrow> [] | Some t \<Rightarrow> t);
               statusMatch = match_status responseText;
               reasonMatch = match_reason responseText
           in (Inr (JObject
                 [ (js ''status'',
                     JString (case statusMatch of Some g \<Rightarrow> toUpperCase g | None \<Rightarrow> js ''UNKNOWN'')),
                   (js ''reason'',
                     JString (case reasonMatch of Some g \<Rightarrow> trim g
                              | None \<Rightarrow> js ''Requires verification'')) ]),
               w1)))"

text \<open>
  The first part of \<open>checkMarketStatus\<close>, up to the end of the \<^verbatim>\<open>if\<close>: \<open>Inr v\<close> when the cached
  value \<open>v\<close> is returned; otherwise \<open>Inl\<close> of the console, to which a cached payload that
  does not parse has added an error line.
\<close>

definition cacheLookup ::
  "('w, 's) platform \<Rightarrow> jsstring option \<Rightarrow> jsstring option \<Rightarrow> int \<Rightarrow> console_line list \<Rightarrow>
     console_line list + json" where
  "cacheLookup p cachedStatus cachedTime now con =
     (case (cachedStatus, cachedTime) of
        (Some cs, Some ct) \<Rightarrow>
          if cs \<noteq> [] \<and> ct \<noteq> []
             \<and> (case parseInt p ct of None \<Rightarrow> False | Some t \<Rightarrow> now - t < CACHE_DURATION)
          then (case JSON_parse p cs of
                  Inr v \<Rightarrow> Inr v
                | Inl e \<Rightarrow> Inl (con @ [ErrorLog (js ''Failed to parse cached market status'') e]))
          else Inl con
      | _ \<Rightarrow> Inl con)"

definition checkMarketStatus ::
  "('w, 's) platform \<Rightarrow> jsstring \<Rightarrow> 'w state \<Rightarrow> (js_error + json) \<times> 'w state" where
  "checkMarketStatus p dateStr s =
     (let cachedStatus = sessionStorage s CACHE_KEY;
          cachedTime = sessionStorage s CACHE_TIME_KEY;
          now = Date_now p (world s)
      in case cacheLookup p cachedStatus cachedTime now (console s) of
           Inr v \<Rightarrow> (Inr v, s)
         | Inl con1 \<Rightarrow>
             (case generateWithFallback (status_generateFn p dateStr) con1 (world s) of
                (Inl err, con2, w2) \<Rightarrow> (Inl err, s\<lparr>console := con2, world := w2\<rparr>)
              | (Inr result, con2, w2) \<Rightarrow>
                  (Inr result,
                   s\<lparr>sessionStorage := (sessionStorage s)
                        (CACHE_KEY \<mapsto> JSON_stringify p result,
                         CACHE_TIME_KEY \<mapsto> Number_toString p now),
                     console := con2, world := w2\<rparr>)))"

subsection \<open>The summary of the last session\<close>

text \<open>
  The request function that \<open>fetchYesterdayPulse\<close> hands to the fallback client builds the
  argument of \<^verbatim>\<open>generateContent\<close> from \<^verbatim>\<open>getSmartConfig(model, schema, ...)\<close>, and the identifier
  \<^verbatim>\<open>schema\<close> is bound nowhere in the module: reading it throws a \<^verbatim>\<open>ReferenceError\<close> (the wording
  of the message is the engine's) before any request is issued, for every model.
\<close>

definition pulse_generateFn :: "jsstring \<Rightarrow> 'w \<Rightarrow> (js_error + json) \<times> 'w" where
  "pulse_generateFn model w = (Inl (ReferenceError (js ''schema is not defined'')), w)"

definition fetchYesterdayPulse ::
  "console_line list \<Rightarrow> 'w \<Rightarrow> (js_error + json) \<times> console_line list \<times> 'w" where
  "fetchYesterdayPulse con w = generateWithFallback pulse_generateFn con w"

subsection \<open>The discovery suggestions\<close>

text \<open>
  The schema literals of the module, as far as \<open>fetchDiscoverySuggestions\<close> uses them: a
  constructor stands for the \<^verbatim>\<open>type\<close> tag (\<^verbatim>\<open>Type.STRING\<close>, \<^verbatim>\<open>Type.ARRAY\<close> with its \<^verbatim>\<open>items\<close>,
  \<^verbatim>\<open>Type.OBJECT\<close> with its \<^verbatim>\<open>properties\<close> and its \<^verbatim>\<open>required\<close> list).
\<close>

datatype schema =
    StringSchema
  | ArraySchema schema
  | ObjectSchema "(jsstring \<times> schema) list" "jsstring list"

definition DISCOVERY_SCHEMA :: schema where
  "DISCOVERY_SCHEMA =
     ObjectSchema
       [ (js ''profileAnalysis'', StringSchema),
         (js ''suggestedStocks'',
            ArraySchema
              (ObjectSchema
                 [ (js ''name'', StringSchema),
                   (js ''ticker'', StringSchema),
                   (js ''reasoning'', StringSchema),
                   (js ''fundamentals'', StringSchema),
                   (js ''newsImpact'', StringSchema),
                   (js ''risks'', StringSchema),
                   (js ''learningFocus'', StringSchema) ]
                 [ js ''name'', js ''ticker'', js ''reasoning'', js ''fundamentals'',
                   js ''newsImpact'', js ''risks'', js ''learningFocus'' ])) ]
       [ js ''profileAnalysis'', js ''suggestedStocks'' ]"

definition REBALANCER_SYSTEM_INSTRUCTION :: jsstring where
  "REBALANCER_SYSTEM_INSTRUCTION = join (js ''\<newline>'')
    [ js ''You are an educational portfolio rebalancing assistant for Indian stock market investors only.'',
      js ''STRICT RULES:'',
      js ''- NO price predictions or market direction forecasts.'',
      js ''- NO guaranteed returns.'',
      js ''- NO aggressive buy/sell instructions.'',
      js ''- Provide logical, risk-based rebalancing suggestions only.'',
      js ''- Prioritize capital protection and diversification principles.'',
      js ''- Conservative, factual, and unemotional tone.'',
      js ''- Context: Indian market (NSE/BSE).'' ]"

text \<open>
  The two fields of the user profile that the prompt interpolates; both are strings.
\<close>

record UserProfile =
  riskTolerance :: jsstring
  horizon :: jsstring

definition discovery_prompt :: "UserProfile \<Rightarrow> jsstring" where
  "discovery_prompt profile =
     js ''Educational study for: Risk='' @ riskTolerance profile @ js '', Horizon='' @ horizon profile
     @ js ''.\<newline>  Suggest 2-3 NSE/BSE stocks for learning/study. Focus on capital protection and diversification principles. NO ADVICE.''"

text \<open>
  \<open>cleanJson(response.text)\<close> reads \<^verbatim>\<open>text.match\<close>; on \<^verbatim>\<open>undefined\<close> that throws a \<^verbatim>\<open>TypeError\<close>
  (the wording of the message is the engine's).
\<close>

definition undefined_match_error :: js_error where
  "undefined_match_error = TypeError (js ''Cannot read properties of undefined (reading 'match')'')"

text \<open>
  The request function of \<open>fetchDiscoverySuggestions\<close>: the request, then
  \<^verbatim>\<open>JSON.parse(cleanJson(response.text))\<close>, whose throw is a rejection of the request function.
\<close>

definition discovery_generateFn ::
  "('w, schema) platform \<Rightarrow> UserProfile \<Rightarrow> jsstring \<Rightarrow> 'w \<Rightarrow> (js_error + json) \<times> 'w" where
  "discovery_generateFn p profile model w =
     (case generateContent p
             \<lparr> req_model = model, req_contents = discovery_prompt profile,
               req_config = getSmartConfig model DISCOVERY_SCHEMA REBALANCER_SYSTEM_INSTRUCTION \<rparr> w of
        (Inl err, w1) \<Rightarrow> (Inl err, w1)
      | (Inr response, w1) \<Rightarrow>
          (case response_text response of
             None \<Rightarrow> (Inl undefined_match_error, w1)
           | Some t \<Rightarrow> (JSON_parse p (cleanJson t), w1)))"

definition fetchDiscoverySuggestions ::
  "('w, schema) platform \<Rightarrow> UserProfile \<Rightarrow> console_line list \<Rightarrow> 'w \<Rightarrow>
     (js_error + json) \<times> console_line list \<times> 'w" where
  "fetchDiscoverySuggestions p profile con w =
     generateWithFallback (discovery_generateFn p profile) con w"

subsection \<open>A platform for the scenarios\<close>

text \<open>
  The world is the clock and the number of requests issued so far. Every request takes two
  seconds and resolves with a given text. The stand-ins for the built-ins agree with them
  on the strings of the scenarios: decimal numerals for the timestamps, and the JSON texts
  of the one status object and of the payload of the specification's scenario.
\<close>

fun decimal_nat :: "nat \<Rightarrow> jsstring" where
  "decimal_nat n =
     (if n < 10 then [0x30 + of_nat n] else decimal_nat (n div 10) @ [0x30 + of_nat (n mod 10)])"

definition decimal :: "int \<Rightarrow> jsstring" where
  "decimal i = (if i < 0 then jc CHR ''-'' # decimal_nat (nat (- i)) else decimal_nat (nat i))"

fun digits_value :: "jsstring \<Rightarrow> nat \<Rightarrow> nat option" where
  "digits_value [] acc = Some acc"
| "digits_value (c # cs) acc =
     (if 0x30 \<le> c \<and> c \<le> 0x39 then digits_value cs (10 * acc + unat (c - 0x30)) else None)"

definition parse_decimal :: "jsstring \<Rightarrow> int option" where
  "parse_decimal s = (if s = [] then None else map_option int (digits_value s 0))"

definition OPEN_STATUS :: json where
  "OPEN_STATUS =
     JObject [(js ''status'', JString (js ''OPEN'')), (js ''reason'', JString (js ''Regular weekday session''))]"

definition scenario_stringify :: "json \<Rightarrow> jsstring" where
  "scenario_stringify v =
     (if v = OPEN_STATUS then js ''{\"status\":\"OPEN\",\"reason\":\"Regular weekday session\"}''
      else js ''null'')"

definition scenario_parse :: "jsstring \<Rightarrow> js_error + json" where
  "scenario_parse s =
     (if s = js ''{\"status\":\"OPEN\",\"reason\":\"Regular weekday session\"}'' then Inr OPEN_STATUS
      else if s = js ''{\"x\":1}'' then Inr (JObject [(js ''x'', JNumber 1)])
      else if s = js ''null'' then Inr JNull
      else Inl (SyntaxError (js ''Unexpected token'')))"

definition responding_platform :: "jsstring \<Rightarrow> (int \<times> nat, schema) platform" where
  "responding_platform reply =
     \<lparr> generateContent =
         (\<lambda>req w. (Inr \<lparr> response_text = Some reply \<rparr>, (fst w + 2000, Suc (snd w)))),
       JSON_parse = scenario_parse,
       JSON_stringify = scenario_stringify,
       Date_now = fst,
       parseInt = parse_decimal,
       Number_toString = decimal \<rparr>"

definition rejecting_platform :: "(int \<times> nat, schema) platform" where
  "rejecting_platform =
     \<lparr> generateContent =
         (\<lambda>req w. (Inl (RequestError (js ''quota exceeded'')), (fst w + 2000, Suc (snd w)))),
       JSON_parse = scenario_parse,
       JSON_stringify = scenario_stringify,
       Date_now = fst,
       parseInt = parse_decimal,
       Number_toString = decimal \<rparr>"

text \<open>
  The states and replies of the scenarios: a storage that holds a status written at clock
  value 5000, read at a later clock value after one request; an empty storage; a reply of
  the service to the status question; a reply that is not JSON; a user profile.
\<close>

definition cached_state :: "int \<Rightarrow> (int \<times> nat) state" where
  "cached_state clock =
     \<lparr> sessionStorage =
         [CACHE_KEY \<mapsto> js ''{\"status\":\"OPEN\",\"reason\":\"Regular weekday session\"}'',
          CACHE_TIME_KEY \<mapsto> js ''5000''],
       console = [],
       world = (clock, 1) \<rparr>"

definition empty_state :: "int \<Rightarrow> (int \<times> nat) state" where
  "empty_state clock = \<lparr> sessionStorage = Map.empty, console = [], world = (clock, 0) \<rparr>"

definition STATUS_REPLY :: jsstring where
  "STATUS_REPLY = js ''Status: open\<newline>Reason:  Regular weekday session \<newline>Note: none''"

definition REFUSAL :: jsstring where
  "REFUSAL = js ''I cannot help with that.''"

definition CAUTIOUS_PROFILE :: UserProfile where
  "CAUTIOUS_PROFILE = \<lparr> riskTolerance = js ''Low'', horizon = js ''Long-term'' \<rparr>"

definition CACHED_PAYLOAD :: jsstring where
  "CACHED_PAYLOAD = js ''{\"status\":\"OPEN\",\"reason\":\"Regular weekday session\"}''"

section \<open>Properties of the fallback client\<close>

lemma js_Nil: "js [] = []"
  by (simp add: js_def)

lemma js_Cons: "js (c # cs) = jc c # js cs"
  by (simp add: js_def)

lemma tryModels_fail_through:
  "fail_through generateFn pre w = Some (msgs, w1) \<Longrightarrow>
   tryModels generateFn (pre @ rest) errors con w =
   tryModels generateFn rest (errors @ failure_lines pre msgs) (con @ attempt_log pre msgs) w1"
proof (induction pre arbitrary: w msgs errors con)
  case Nil
  then show ?case by simp
next
  case (Cons m pre)
  obtain r w' where g: "generateFn m w = (r, w')" by (cases "generateFn m w")
  with Cons.prems obtain err where r: "r = Inl err" by (cases r) auto
  from Cons.prems g r obtain msgs' where
    ft: "fail_through generateFn pre w' = Some (msgs', w1)" and msgs: "msgs = message err # msgs'"
    by (auto split: option.splits)
  show ?case
    using g r msgs Cons.IH [OF ft] by (simp add: Let_def)
qed

lemma fail_through_length:
  "fail_through generateFn ms w = Some (msgs, w1) \<Longrightarrow> length msgs = length ms"
  by (induction ms arbitrary: w msgs) (auto split: prod.splits sum.splits option.splits)

lemma length_failure_lines:
  "length es = length ms \<Longrightarrow> length (failure_lines ms es) = length ms"
  by (induction ms es rule: failure_lines.induct) auto

lemma nth_failure_lines:
  "length es = length ms \<Longrightarrow> i < length ms \<Longrightarrow>
   failure_lines ms es ! i = js ''Model '' @ ms ! i @ js '' failed: '' @ es ! i"
proof (induction ms es arbitrary: i rule: failure_lines.induct)
  case (1 m ms e es)
  then show ?case by (cases i) auto
qed auto

text \<open>
  C1. If the candidates before the Nth are all rejected and the Nth resolves, the client
  returns the Nth candidate's result; the world is left as the Nth request left it and the
  console shows attempts on the first N candidates only, whatever candidates follow: the
  request function is not invoked on any of them.
\<close>

theorem generateWithFallback_first_success:
  assumes "fail_through generateFn pre w = Some (msgs, w1)"
    and "generateFn m w1 = (Inr v, w2)"
  shows "tryModels generateFn (pre @ m # post) [] con w =
           (Inr v, con @ attempt_log pre msgs @ [Log (js ''Trying model: '' @ m)], w2)
         \<and> tryModels generateFn (pre @ m # post) [] con w = tryModels generateFn (pre @ [m]) [] con w"
  using assms by (simp add: tryModels_fail_through)

theorem generateWithFallback_first_success_witness:
  "fail_through scenario_generateFn [js ''A'', js ''B''] 0
     = Some ([js ''rate limited'', js ''invalid arg''], 2)
   \<and> scenario_generateFn (js ''C'') 2 = (Inr (js ''{\"x\":1}''), 3)
   \<and> tryModels scenario_generateFn [js ''A'', js ''B'', js ''C'', js ''D''] [] [] 0 =
       (Inr (js ''{\"x\":1}''),
        [Log (js ''Trying model: A''), Warn (js ''Model A failed: rate limited''),
         Log (js ''Trying model: B''), Warn (js ''Model B failed: invalid arg''),
         Log (js ''Trying model: C'')],
        3)"
proof -
  have h1: "fail_through scenario_generateFn [js ''A'', js ''B''] 0
     = Some ([js ''rate limited'', js ''invalid arg''], 2)"
    by (simp add: scenario_generateFn_def js_Nil js_Cons jc_def)
  have h2: "scenario_generateFn (js ''C'') 2 = (Inr (js ''{\"x\":1}''), 3)"
    by (simp add: scenario_generateFn_def js_Nil js_Cons jc_def)
  show ?thesis
    using h1 h2 generateWithFallback_first_success [OF h1 h2, of "[js ''D'']" "[]"]
    by (simp add: js_Nil js_Cons jc_def)
qed

text \<open>
  C2. If every candidate is rejected, the client throws one error whose message is the
  exhaustion text followed by the failure lines joined with newlines: one line per
  candidate, in the order of the candidates, the i-th line naming the i-th candidate and
  its error message.
\<close>

theorem generateWithFallback_all_fail:
  assumes "fail_through generateFn ms w = Some (msgs, w1)"
  shows "tryModels generateFn ms [] con w =
           (Inl (Error (js ''All models failed. Details:\<newline>''
                        @ join (js ''\<newline>'') (failure_lines ms msgs))),
            con @ attempt_log ms msgs, w1)
         \<and> length (failure_lines ms msgs) = length ms
         \<and> (\<forall>i < length ms.
               failure_lines ms msgs ! i = js ''Model '' @ ms ! i @ js '' failed: '' @ msgs ! i)"
proof -
  have "tryModels generateFn (ms @ []) [] con w =
        tryModels generateFn [] ([] @ failure_lines ms msgs) (con @ attempt_log ms msgs) w1"
    using assms by (rule tryModels_fail_through)
  moreover have "length msgs = length ms"
    using assms by (rule fail_through_length)
  ultimately show ?thesis
    by (simp add: length_failure_lines nth_failure_lines)
qed

theorem generateWithFallback_all_fail_witness:
  "fail_through failing_generateFn [js ''A'', js ''B''] 0
     = Some ([js ''rate limited'', js ''invalid arg''], 2)
   \<and> tryModels failing_generateFn [js ''A'', js ''B''] [] [] 0 =
       (Inl (Error (js ''All models failed. Details:\<newline>Model A failed: rate limited\<newline>Model B failed: invalid arg'')),
        [Log (js ''Trying model: A''), Warn (js ''Model A failed: rate limited''),
         Log (js ''Trying model: B''), Warn (js ''Model B failed: invalid arg'')],
        2)"
proof -
  have h: "fail_through failing_generateFn [js ''A'', js ''B''] 0
     = Some ([js ''rate limited'', js ''invalid arg''], 2)"
    by (simp add: failing_generateFn_def js_Nil js_Cons jc_def)
  show ?thesis
    using h generateWithFallback_all_fail [OF h, of "[]"]
    by (simp add: js_Nil js_Cons jc_def)
qed

text \<open>
  C7 (as stated, refuted). The line recorded for a rejected candidate is not
  "<model>: <error message>": for candidate A rejected with "rate limited" the console
  and the thrown message hold "Model A failed: rate limited".
\<close>

theorem failure_line_format_counterexample:
  "tryModels failing_generateFn [js ''A''] [] [] 0 =
     (Inl (Error (js ''All models failed. Details:\<newline>Model A failed: rate limited'')),
      [Log (js ''Trying model: A''), Warn (js ''Model A failed: rate limited'')], 1)
   \<and> Warn (js ''A'' @ js '': '' @ js ''rate limited'')
        \<notin> set (fst (snd (tryModels failing_generateFn [js ''A''] [] [] 0)))
   \<and> fst (tryModels failing_generateFn [js ''A''] [] [] 0) \<noteq>
       Inl (Error (js ''All models failed. Details:\<newline>'' @ js ''A'' @ js '': '' @ js ''rate limited''))"
  by (simp add: failing_generateFn_def Let_def js_Nil js_Cons jc_def)

lemma tryModels_console_extends:
  "\<exists>later. fst (snd (tryModels generateFn ms errors con w)) = con @ later"
proof (induction ms arbitrary: errors con w)
  case Nil
  then show ?case by simp
next
  case (Cons m ms)
  obtain r w1 where g: "generateFn m w = (r, w1)" by (cases "generateFn m w")
  show ?case
  proof (cases r)
    case (Inl err)
    from Cons.IH obtain later where
      "fst (snd (tryModels generateFn ms
          (errors @ [js ''Model '' @ m @ js '' failed: '' @ message err])
          ((con @ [Log (js ''Trying model: '' @ m)])
             @ [Warn (js ''Model '' @ m @ js '' failed: '' @ message err)]) w1))
       = ((con @ [Log (js ''Trying model: '' @ m)])
             @ [Warn (js ''Model '' @ m @ js '' failed: '' @ message err)]) @ later"
      by blast
    with g Inl show ?thesis by (simp add: Let_def)
  next
    case (Inr v)
    with g show ?thesis by (simp add: Let_def)
  qed
qed

lemma tryModels_errors_extend:
  "fst (tryModels generateFn ms errors con w) = Inl e \<Longrightarrow>
   \<exists>more. e = Error (js ''All models failed. Details:\<newline>''
                      @ join (js ''\<newline>'') (errors @ more))"
proof (induction ms arbitrary: errors con w)
  case Nil
  then have "e = Error (js ''All models failed. Details:\<newline>''
                      @ join (js ''\<newline>'') (errors @ []))"
    by simp
  then show ?case by blast
next
  case (Cons m ms)
  obtain r w1 where g: "generateFn m w = (r, w1)" by (cases "generateFn m w")
  show ?case
  proof (cases r)
    case (Inl err)
    with Cons.prems g have
      "fst (tryModels generateFn ms
          (errors @ [js ''Model '' @ m @ js '' failed: '' @ message err])
          (con @ [Log (js ''Trying model: '' @ m)]
             @ [Warn (js ''Model '' @ m @ js '' failed: '' @ message err)]) w1) = Inl e"
      by (simp add: Let_def)
    from Cons.IH [OF this] obtain more where
      "e = Error (js ''All models failed. Details:\<newline>''
            @ join (js ''\<newline>'')
                ((errors @ [js ''Model '' @ m @ js '' failed: '' @ message err]) @ more))"
      by blast
    then have "e = Error (js ''All models failed. Details:\<newline>''
            @ join (js ''\<newline>'')
                (errors @ (js ''Model '' @ m @ js '' failed: '' @ message err) # more))"
      by simp
    then show ?thesis by blast
  next
    case (Inr v)
    with Cons.prems g show ?thesis by (simp add: Let_def)
  qed
qed

lemma tryModels_failed_candidate:
  assumes "fail_through generateFn pre w = Some (msgs, w1)"
    and "generateFn model w1 = (Inl err, w2)"
  shows "tryModels generateFn (pre @ model # rest) [] con w =
         tryModels generateFn rest
           (failure_lines pre msgs @ [js ''Model '' @ model @ js '' failed: '' @ message err])
           (con @ attempt_log pre msgs
              @ [Log (js ''Trying model: '' @ model),
                 Warn (js ''Model '' @ model @ js '' failed: '' @ message err)])
           w2"
    and "\<exists>later. fst (snd (tryModels generateFn (pre @ model # rest) [] con w)) =
           con @ attempt_log pre msgs
             @ [Log (js ''Trying model: '' @ model),
                Warn (js ''Model '' @ model @ js '' failed: '' @ message err)] @ later"
    and "\<forall>e. fst (tryModels generateFn (pre @ model # rest) [] con w) = Inl e \<longrightarrow>
           (\<exists>more. e = Error (js ''All models failed. Details:\<newline>''
              @ join (js ''\<newline>'')
                  (failure_lines pre msgs
                     @ [js ''Model '' @ model @ js '' failed: '' @ message err] @ more)))"
proof -
  let ?line = "js ''Model '' @ model @ js '' failed: '' @ message err"
  let ?con = "con @ attempt_log pre msgs @ [Log (js ''Trying model: '' @ model), Warn ?line]"
  have "tryModels generateFn (pre @ model # rest) [] con w =
        tryModels generateFn (model # rest) ([] @ failure_lines pre msgs)
          (con @ attempt_log pre msgs) w1"
    using assms(1) by (rule tryModels_fail_through)
  also have "\<dots> = tryModels generateFn rest (failure_lines pre msgs @ [?line]) ?con w2"
    using assms(2) by (simp add: Let_def)
  finally show step:
    "tryModels generateFn (pre @ model # rest) [] con w =
     tryModels generateFn rest (failure_lines pre msgs @ [?line]) ?con w2" .
  from tryModels_console_extends [of generateFn rest "failure_lines pre msgs @ [?line]" ?con w2]
  obtain later where
    "fst (snd (tryModels generateFn rest (failure_lines pre msgs @ [?line]) ?con w2)) = ?con @ later"
    by blast
  with step have "fst (snd (tryModels generateFn (pre @ model # rest) [] con w)) =
      con @ attempt_log pre msgs @ [Log (js ''Trying model: '' @ model), Warn ?line] @ later"
    by simp
  then show "\<exists>later. fst (snd (tryModels generateFn (pre @ model # rest) [] con w)) =
      con @ attempt_log pre msgs @ [Log (js ''Trying model: '' @ model), Warn ?line] @ later"
    by blast
  show "\<forall>e. fst (tryModels generateFn (pre @ model # rest) [] con w) = Inl e \<longrightarrow>
           (\<exists>more. e = Error (js ''All models failed. Details:\<newline>''
              @ join (js ''\<newline>'') (failure_lines pre msgs @ [?line] @ more)))"
  proof (intro allI impI)
    fix e
    assume "fst (tryModels generateFn (pre @ model # rest) [] con w) = Inl e"
    with step have
      "fst (tryModels generateFn rest (failure_lines pre msgs @ [?line]) ?con w2) = Inl e"
      by simp
    from tryModels_errors_extend [OF this]
    show "\<exists>more. e = Error (js ''All models failed. Details:\<newline>''
              @ join (js ''\<newline>'') (failure_lines pre msgs @ [?line] @ more))"
      by simp
  qed
qed

text \<open>
  C7 (amended). For a candidate whose request is rejected, after rejected earlier
  candidates, the client records the line "Model <model> failed: <error message>" before
  it goes on with the candidates that are left: the console of the run holds the warning
  with that line right after the attempt on the candidate and before anything of a later
  candidate, the run continues with the line appended to \<^verbatim>\<open>errors\<close>, and an error thrown at
  the end lists that line after the lines of the earlier candidates.
\<close>

theorem generateWithFallback_records_failure_line:
  assumes "fail_through generateFn pre w = Some (msgs, w1)"
    and "generateFn model w1 = (Inl err, w2)"
  shows "tryModels generateFn (pre @ model # rest) [] con w =
           tryModels generateFn rest
             (failure_lines pre msgs @ [js ''Model '' @ model @ js '' failed: '' @ message err])
             (con @ attempt_log pre msgs
                @ [Log (js ''Trying model: '' @ model),
                   Warn (js ''Model '' @ model @ js '' failed: '' @ message err)])
             w2
         \<and> (\<exists>later. fst (snd (tryModels generateFn (pre @ model # rest) [] con w)) =
               con @ attempt_log pre msgs
                 @ [Log (js ''Trying model: '' @ model),
                    Warn (js ''Model '' @ model @ js '' failed: '' @ message err)] @ later)
         \<and> (\<forall>e. fst (tryModels generateFn (pre @ model # rest) [] con w) = Inl e \<longrightarrow>
               (\<exists>more. e = Error (js ''All models failed. Details:\<newline>''
                  @ join (js ''\<newline>'')
                      (failure_lines pre msgs
                         @ [js ''Model '' @ model @ js '' failed: '' @ message err] @ more))))"
  using tryModels_failed_candidate [OF assms] by blast

theorem generateWithFallback_records_failure_line_witness:
  "fail_through failing_generateFn [js ''A''] 0 = Some ([js ''rate limited''], 1)
   \<and> failing_generateFn (js ''B'') 1 = (Inl (RequestError (js ''invalid arg'')), 2)
   \<and> fst (snd (tryModels failing_generateFn [js ''A'', js ''B'', js ''C''] [] [] 0)) =
       [Log (js ''Trying model: A''), Warn (js ''Model A failed: rate limited''),
        Log (js ''Trying model: B''), Warn (js ''Model B failed: invalid arg''),
        Log (js ''Trying model: C''), Warn (js ''Model C failed: invalid arg'')]
   \<and> fst (tryModels failing_generateFn [js ''A'', js ''B'', js ''C''] [] [] 0) =
       Inl (Error (js ''All models failed. Details:\<newline>Model A failed: rate limited\<newline>Model B failed: invalid arg\<newline>Model C failed: invalid arg''))"
proof -
  have h1: "fail_through failing_generateFn [js ''A''] 0 = Some ([js ''rate limited''], 1)"
    by (simp add: failing_generateFn_def js_Nil js_Cons jc_def)
  have h2: "failing_generateFn (js ''B'') 1 = (Inl (RequestError (js ''invalid arg'')), 2)"
    by (simp add: failing_generateFn_def js_Nil js_Cons jc_def)
  have rest: "tryModels failing_generateFn [js ''C'']
       [js ''Model A failed: rate limited'', js ''Model B failed: invalid arg'']
       [Log (js ''Trying model: A''), Warn (js ''Model A failed: rate limited''),
        Log (js ''Trying model: B''), Warn (js ''Model B failed: invalid arg'')] 2 =
     (Inl (Error (js ''All models failed. Details:\<newline>Model A failed: rate limited\<newline>Model B failed: invalid arg\<newline>Model C failed: invalid arg'')),
      [Log (js ''Trying model: A''), Warn (js ''Model A failed: rate limited''),
       Log (js ''Trying model: B''), Warn (js ''Model B failed: invalid arg''),
       Log (js ''Trying model: C''), Warn (js ''Model C failed: invalid arg'')], 3)"
    by (simp add: failing_generateFn_def Let_def js_Nil js_Cons jc_def)
  from generateWithFallback_records_failure_line [OF h1 h2, of "[js ''C'']" "[]"]
  have "tryModels failing_generateFn [js ''A'', js ''B'', js ''C''] [] [] 0 =
        tryModels failing_generateFn [js ''C'']
          [js ''Model A failed: rate limited'', js ''Model B failed: invalid arg'']
          [Log (js ''Trying model: A''), Warn (js ''Model A failed: rate limited''),
           Log (js ''Trying model: B''), Warn (js ''Model B failed: invalid arg'')] 2"
    by (simp add: js_Nil js_Cons jc_def)
  with h1 h2 rest show ?thesis by simp
qed

section \<open>Properties of the response shape selection\<close>

lemma startsWith_iff: "startsWith s p \<longleftrightarrow> (\<exists>post. s = p @ post)"
  by (induction s p rule: startsWith.induct) auto

lemma includes_str_iff: "includes_str s sub \<longleftrightarrow> (\<exists>pre post. s = pre @ sub @ post)"
proof (induction s)
  case Nil
  then show ?case by auto
next
  case (Cons c cs)
  show ?case
  proof
    assume "includes_str (c # cs) sub"
    then consider "startsWith (c # cs) sub" | "includes_str cs sub" by auto
    then show "\<exists>pre post. c # cs = pre @ sub @ post"
    proof cases
      case 1
      then obtain post where "c # cs = [] @ sub @ post" by (auto simp: startsWith_iff)
      then show ?thesis by blast
    next
      case 2
      with Cons.IH obtain pre post where "cs = pre @ sub @ post" by blast
      then have "c # cs = (c # pre) @ sub @ post" by simp
      then show ?thesis by blast
    qed
  next
    assume "\<exists>pre post. c # cs = pre @ sub @ post"
    then obtain pre post where eq: "c # cs = pre @ sub @ post" by blast
    show "includes_str (c # cs) sub"
    proof (cases pre)
      case Nil
      with eq have "startsWith (c # cs) sub" by (auto simp: startsWith_iff)
      then show ?thesis by simp
    next
      case (Cons a pre')
      with eq have "cs = pre' @ sub @ post" by simp
      with Cons.IH have "includes_str cs sub" by blast
      then show ?thesis by simp
    qed
  qed
qed

text \<open>
  C6. For a model identifier that contains "lite", \<open>getSmartConfig\<close> returns the system
  instruction followed by the raw-JSON directive, with neither \<^verbatim>\<open>responseSchema\<close> nor
  \<^verbatim>\<open>responseMimeType\<close>; for every other identifier it returns the system instruction as it
  is, with the schema and the mime type "application/json".
\<close>

theorem getSmartConfig_shape:
  "((\<exists>pre post. model = pre @ js ''lite'' @ post) \<longrightarrow>
      getSmartConfig model schema sysInstruction =
        \<lparr> systemInstruction = sysInstruction @ js ''\<newline>\<newline>CRITICAL: Output strictly valid JSON only. Do not wrap in markdown. Do not include any text before or after.'',
          tools = Some [GoogleSearch], responseMimeType = None, responseSchema = None \<rparr>)
   \<and> (\<not> (\<exists>pre post. model = pre @ js ''lite'' @ post) \<longrightarrow>
      getSmartConfig model schema sysInstruction =
        \<lparr> systemInstruction = sysInstruction,
          tools = Some [GoogleSearch], responseMimeType = Some (js ''application/json''),
          responseSchema = Some schema \<rparr>)"
  by (simp add: getSmartConfig_def includes_str_iff [symmetric])

theorem getSmartConfig_shape_witness:
  "(\<exists>pre post. js ''gemini-flash-lite-latest'' = pre @ js ''lite'' @ post)
   \<and> \<not> (\<exists>pre post. js ''gemini-2.0-flash'' = pre @ js ''lite'' @ post)
   \<and> getSmartConfig (js ''gemini-flash-lite-latest'') (7::nat) (js ''S'') =
        \<lparr> systemInstruction = js ''S\<newline>\<newline>CRITICAL: Output strictly valid JSON only. Do not wrap in markdown. Do not include any text before or after.'',
          tools = Some [GoogleSearch], responseMimeType = None, responseSchema = None \<rparr>
   \<and> getSmartConfig (js ''gemini-2.0-flash'') (7::nat) (js ''S'') =
        \<lparr> systemInstruction = js ''S'',
          tools = Some [GoogleSearch], responseMimeType = Some (js ''application/json''),
          responseSchema = Some 7 \<rparr>"
proof -
  have h1: "\<exists>pre post. js ''gemini-flash-lite-latest'' = pre @ js ''lite'' @ post"
    unfolding includes_str_iff [symmetric] by (simp add: js_Nil js_Cons jc_def)
  have h2: "\<not> (\<exists>pre post. js ''gemini-2.0-flash'' = pre @ js ''lite'' @ post)"
    unfolding includes_str_iff [symmetric] by (simp add: js_Nil js_Cons jc_def)
  show ?thesis
    using h1 h2
      getSmartConfig_shape [of "js ''gemini-flash-lite-latest''" "7::nat" "js ''S''"]
      getSmartConfig_shape [of "js ''gemini-2.0-flash''" "7::nat" "js ''S''"]
    by (simp add: js_Nil js_Cons jc_def)
qed

section \<open>Properties of the JSON extraction\<close>

lemma endsWith_iff: "endsWith s p \<longleftrightarrow> (\<exists>pre. s = pre @ p)"
proof -
  have "(\<exists>post. rev s = rev p @ post) \<longleftrightarrow> (\<exists>pre. s = pre @ p)"
  proof
    assume "\<exists>post. rev s = rev p @ post"
    then obtain post where "rev s = rev p @ post" by blast
    then have "rev (rev s) = rev (rev p @ post)" by simp
    then have "s = rev post @ p" by simp
    then show "\<exists>pre. s = pre @ p" by blast
  next
    assume "\<exists>pre. s = pre @ p"
    then obtain pre where "s = pre @ p" by blast
    then have "rev s = rev p @ rev pre" by simp
    then show "\<exists>post. rev s = rev p @ post" by blast
  qed
  then show ?thesis by (simp add: endsWith_def startsWith_iff)
qed

lemma match_json_skip:
  "jc CHR ''{'' \<notin> set pre \<Longrightarrow> jc CHR ''['' \<notin> set pre \<Longrightarrow> match_json (pre @ s) = match_json s"
  by (induction pre) auto

lemma upto_last_append: "c \<notin> set post \<Longrightarrow> upto_last c (body @ c # post) = body @ [c]"
proof -
  have "\<forall>x\<in>set (rev post). x \<noteq> c" if "c \<notin> set post"
    using that by auto
  then show "c \<notin> set post \<Longrightarrow> upto_last c (body @ c # post) = body @ [c]"
    by (simp add: upto_last_def dropWhile_append3)
qed

lemma jc_brackets: "jc CHR ''['' \<noteq> jc CHR ''{''"
  by (simp add: jc_def)

text \<open>
  C4 (as stated, refuted). The text "Answer [1]: " followed by the well-formed object
  \<^verbatim>\<open>{"a":1}\<close> holds that object inside prose, yet the scan starts at the bracket of the prose
  and \<open>cleanJson\<close> returns \<^verbatim>\<open>[1]\<close>: a text that can only denote an array, while the embedded
  JSON denotes an object.
\<close>

theorem cleanJson_embedded_counterexample:
  "js ''Answer [1]: {\"a\":1}'' = js ''Answer [1]: '' @ js ''{\"a\":1}'' @ []
   \<and> cleanJson (js ''Answer [1]: {\"a\":1}'') = js ''[1]''
   \<and> cleanJson (js ''Answer [1]: {\"a\":1}'') \<noteq> js ''{\"a\":1}''
   \<and> json_kind (cleanJson (js ''Answer [1]: {\"a\":1}'')) = ArrayText
   \<and> json_kind (js ''{\"a\":1}'') = ObjectText"
  by (simp add: cleanJson_def upto_last_def json_kind_def js_Nil js_Cons jc_def)

text \<open>
  C4 (amended). For every text made of a prose prefix, a brace-delimited object (or a
  bracket-delimited array) and a prose suffix, where the prefix holds neither an opening
  brace nor an opening bracket and the suffix holds no closing brace (for an array: no
  closing bracket), \<open>cleanJson\<close> returns the embedded object or array verbatim, hence a
  string that parses to the same structure.
\<close>

theorem cleanJson_embedded:
  assumes "jc CHR ''{'' \<notin> set pre" and "jc CHR ''['' \<notin> set pre"
    and "(J = jc CHR ''{'' # body @ [jc CHR ''}''] \<and> jc CHR ''}'' \<notin> set post)
       \<or> (J = jc CHR ''['' # body @ [jc CHR '']''] \<and> jc CHR '']'' \<notin> set post)"
  shows "cleanJson (pre @ J @ post) = J"
proof -
  have skip: "match_json (pre @ J @ post) = match_json (J @ post)"
    using assms(1,2) by (rule match_json_skip)
  from assms(3) have "match_json (J @ post) = Some J"
  proof
    assume a: "J = jc CHR ''{'' # body @ [jc CHR ''}''] \<and> jc CHR ''}'' \<notin> set post"
    then have "upto_last (jc CHR ''}'') (body @ jc CHR ''}'' # post) = body @ [jc CHR ''}'']"
      by (simp add: upto_last_append)
    with a show ?thesis by simp
  next
    assume a: "J = jc CHR ''['' # body @ [jc CHR '']''] \<and> jc CHR '']'' \<notin> set post"
    then have "upto_last (jc CHR '']'') (body @ jc CHR '']'' # post) = body @ [jc CHR '']'']"
      by (simp add: upto_last_append)
    with a show ?thesis by (simp add: jc_brackets)
  qed
  with skip show ?thesis by (simp add: cleanJson_def)
qed

theorem cleanJson_embedded_witness:
  "jc CHR ''{'' \<notin> set (js ''Sure! '') \<and> jc CHR ''['' \<notin> set (js ''Sure! '')
   \<and> jc CHR ''}'' \<notin> set (js '' Done.'')
   \<and> cleanJson (js ''Sure! {\"a\":[1,2]} Done.'') = js ''{\"a\":[1,2]}''"
proof -
  have h1: "jc CHR ''{'' \<notin> set (js ''Sure! '')" and h2: "jc CHR ''['' \<notin> set (js ''Sure! '')"
    and h3: "jc CHR ''}'' \<notin> set (js '' Done.'')"
    by (simp_all add: js_Nil js_Cons jc_def)
  have h4: "(js ''{\"a\":[1,2]}'' = jc CHR ''{'' # js ''\"a\":[1,2]'' @ [jc CHR ''}'']
              \<and> jc CHR ''}'' \<notin> set (js '' Done.''))
            \<or> (js ''{\"a\":[1,2]}'' = jc CHR ''['' # js ''\"a\":[1,2]'' @ [jc CHR '']'']
              \<and> jc CHR '']'' \<notin> set (js '' Done.''))"
    using h3 by (simp add: js_Nil js_Cons)
  show ?thesis
    using h1 h2 h3 cleanJson_embedded [OF h1 h2 h4]
    by (simp add: js_Nil js_Cons)
qed

lemma not_space_lits:
  "\<not> is_space (jc CHR ''`'')" "\<not> is_space (jc CHR ''j'')"
  by (simp_all add: is_space_def jc_def)

lemma dropWhile_spaces: "list_all is_space ws \<Longrightarrow> dropWhile is_space (ws @ s) = dropWhile is_space s"
  by (induction ws) auto

lemma trim_trimmed:
  assumes "x = [] \<or> (\<not> is_space (hd x) \<and> \<not> is_space (last x))"
  shows "trim x = x"
proof (cases "x = []")
  case True
  then show ?thesis by (simp add: trim_def)
next
  case False
  with assms have h: "\<not> is_space (hd x)" and l: "\<not> is_space (last x)" by auto
  from False h have 1: "dropWhile is_space x = x" by (cases x) auto
  from False l have 2: "dropWhile is_space (rev x) = rev x"
    by (cases "rev x") (auto simp: last_rev [symmetric] simp del: last_rev)
  show ?thesis by (simp add: trim_def 1 2)
qed

lemma trim_spaces:
  assumes "list_all is_space ws1" and "list_all is_space ws4"
  shows "trim (ws1 @ x @ ws4) = trim x"
proof -
  have "dropWhile is_space (rev ws4 @ r) = dropWhile is_space r" for r
    using assms(2) by (simp add: dropWhile_spaces)
  have a: "dropWhile is_space (ws1 @ x @ ws4) = dropWhile is_space (x @ ws4)"
    using assms(1) by (rule dropWhile_spaces)
  show ?thesis
  proof (cases "list_all is_space x")
    case True
    then have "dropWhile is_space (x @ ws4) = []" "dropWhile is_space x = []"
      using assms(2) by (auto simp: list_all_iff)
    then show ?thesis by (simp add: trim_def a del: dropWhile_eq_Nil_conv)
  next
    case False
    then obtain c where "c \<in> set x" "\<not> is_space c" by (auto simp: list_all_iff)
    then have "dropWhile is_space (x @ ws4) = dropWhile is_space x @ ws4" by simp
    moreover have "dropWhile is_space (rev ws4 @ r) = dropWhile is_space r" for r
      using assms(2) by (simp add: dropWhile_spaces)
    ultimately show ?thesis by (simp add: trim_def a)
  qed
qed

lemma trim_wrapped:
  "list_all is_space ws1 \<Longrightarrow> list_all is_space ws4 \<Longrightarrow>
   x = [] \<or> (\<not> is_space (hd x) \<and> \<not> is_space (last x)) \<Longrightarrow> trim (ws1 @ x @ ws4) = x"
  by (simp add: trim_spaces trim_trimmed)

lemma fence_no_end: "\<not> endsWith s (js ''```'') \<Longrightarrow> replace_trailing_fence s = s"
proof (induction s)
  case Nil
  then show ?case by simp
next
  case (Cons c cs)
  have "dropWhile is_space (c # cs) \<noteq> js ''```''"
  proof
    assume "dropWhile is_space (c # cs) = js ''```''"
    then have "c # cs = takeWhile is_space (c # cs) @ js ''```''"
      by (metis takeWhile_dropWhile_id)
    with Cons.prems show False by (auto simp: endsWith_iff)
  qed
  moreover have "\<not> endsWith cs (js ''```'')"
    using Cons.prems by (auto simp: endsWith_iff)
  ultimately show ?case using Cons.IH by simp
qed

lemma fence_at_end:
  "b = [] \<or> \<not> is_space (last b) \<Longrightarrow> list_all is_space ws \<Longrightarrow>
   replace_trailing_fence (b @ ws @ js ''```'') = b"
proof (induction b)
  case Nil
  have "dropWhile is_space (ws @ js ''```'') = js ''```''"
    using Nil.prems(2) by (simp add: dropWhile_spaces js_Nil js_Cons not_space_lits)
  then show ?case by (cases "ws @ js ''```''") (auto simp: js_Nil js_Cons)
next
  case (Cons c b)
  from Cons.prems(1) have nl: "\<not> is_space (last (c # b))" by simp
  then have "dropWhile is_space ((c # b) @ ws @ js ''```'') = dropWhile is_space (c # b) @ ws @ js ''```''"
    by (intro dropWhile_append1 [of "last (c # b)"]) auto
  moreover have "dropWhile is_space (c # b) \<noteq> []"
    using nl by (metis dropWhile_eq_Nil_conv last_in_set list.distinct(1))
  ultimately have "length (dropWhile is_space ((c # b) @ ws @ js ''```'')) > 3"
    by (cases "dropWhile is_space (c # b)") (auto simp: js_Nil js_Cons)
  then have ne: "dropWhile is_space ((c # b) @ ws @ js ''```'') \<noteq> js ''```''"
    by (auto simp: js_Nil js_Cons)
  have "b = [] \<or> \<not> is_space (last b)" using Cons.prems(1) by (cases b) auto
  then have "replace_trailing_fence (b @ ws @ js ''```'') = b"
    using Cons.prems(2) by (rule Cons.IH)
  with ne show ?case by simp
qed


lemma lits:
  "js ''```'' = [96, 96, 96]" "js ''```json'' = [96, 96, 96, 106, 115, 111, 110]"
  "js ''json'' = [106, 115, 111, 110]"
  by (simp_all add: js_Nil js_Cons jc_def)

lemma not_space_nums:
  "\<not> is_space 96" "\<not> is_space 106" "\<not> is_space 115" "\<not> is_space 111" "\<not> is_space 110"
  by (simp_all add: is_space_def)

lemma coincidence:
  assumes "startsWith (body @ C) (js ''```'')" and "\<not> startsWith body (js ''```'')"
    and "body \<noteq> []"
    and "C = [] \<or> (\<exists>ws3. list_all is_space ws3 \<and> C = ws3 @ js ''```'')"
  shows "C = js ''```'' \<and> (body = [96] \<or> body = [96, 96])"
proof -
  from assms(4) consider "C = []" | "C = js ''```''"
    | w ws where "is_space w" "C = w # ws"
    by (cases C) (auto simp: Cons_eq_append_conv)
  then show ?thesis
  proof cases
    case 1
    with assms(1,2) show ?thesis by simp
  next
    case 2
    from assms(3) obtain a r where b: "body = a # r" by (cases body) auto
    show ?thesis
    proof (cases r)
      case Nil
      with assms(1) b 2 show ?thesis by (simp add: lits)
    next
      case (Cons b' r')
      show ?thesis
      proof (cases r')
        case Nil
        with assms(1) b 2 Cons show ?thesis by (simp add: lits)
      next
        case (Cons c r2)
        with assms(1,2) b \<open>r = b' # r'\<close> show ?thesis by (simp add: lits)
      qed
    qed
  next
    case 3
    from assms(3) obtain a r where b: "body = a # r" by (cases body) auto
    show ?thesis
    proof (cases r)
      case Nil
      with assms(1) b 3 not_space_nums show ?thesis by (auto simp: lits)
    next
      case (Cons b' r')
      show ?thesis
      proof (cases r')
        case Nil
        with assms(1) b 3 Cons not_space_nums show ?thesis by (auto simp: lits)
      next
        case (Cons c r2)
        with assms(1,2) b \<open>r = b' # r'\<close> show ?thesis by (simp add: lits)
      qed
    qed
  qed
qed

lemma after_opening:
  assumes b: "body \<noteq> []" "\<not> is_space (hd body)" "\<not> is_space (last body)"
    and C: "(C = [] \<and> \<not> endsWith body (js ''```'')) \<or> (\<exists>ws3. list_all is_space ws3 \<and> C = ws3 @ js ''```'')"
  shows K1: "replace_trailing_fence (body @ C) = body"
    and K2: "\<not> startsWith body (js ''```'') \<Longrightarrow>
             replace_trailing_fence (replace_leading (js ''```'') (body @ C)) = body"
    and K3: "\<not> startsWith body (js ''```'') \<Longrightarrow>
             replace_leading (js ''```json'') (body @ C) = body @ C"
proof -
  show k1: "replace_trailing_fence (body @ C) = body"
    using C
  proof
    assume "C = [] \<and> \<not> endsWith body (js ''```'')"
    then show ?thesis by (simp add: fence_no_end)
  next
    assume "\<exists>ws3. list_all is_space ws3 \<and> C = ws3 @ js ''```''"
    then obtain ws3 where "list_all is_space ws3" "C = ws3 @ js ''```''" by blast
    then show ?thesis using b(3) by (simp add: fence_at_end)
  qed
  from C have C': "C = [] \<or> (\<exists>ws3. list_all is_space ws3 \<and> C = ws3 @ js ''```'')" by blast
  {
    assume n: "\<not> startsWith body (js ''```'')"
    show "replace_trailing_fence (replace_leading (js ''```'') (body @ C)) = body"
    proof (cases "startsWith (body @ C) (js ''```'')")
      case True
      from coincidence [OF True n b(1) C']
      show ?thesis using not_space_nums
        by (auto simp: replace_leading_def lits)
    next
      case False
      then show ?thesis using k1 by (simp add: replace_leading_def)
    qed
  }
  {
    assume n: "\<not> startsWith body (js ''```'')"
    show "replace_leading (js ''```json'') (body @ C) = body @ C"
    proof (cases "startsWith (body @ C) (js ''```'')")
      case True
      from coincidence [OF True n b(1) C']
      show ?thesis
        by (auto simp: replace_leading_def lits)
    next
      case False
      then have "\<not> startsWith (body @ C) (js ''```json'')"
        by (auto simp: startsWith_iff lits)
      then show ?thesis by (simp add: replace_leading_def)
    qed
  }
qed

lemma no_json_tag:
  assumes "body \<noteq> []" and "\<not> startsWith body (js ''json'')"
    and "C = [] \<or> (\<exists>ws3. list_all is_space ws3 \<and> C = ws3 @ js ''```'')"
  shows "\<not> startsWith (body @ C) (js ''json'')"
proof -
  from assms(3) consider "C = []" | w ws where "w = 96 \<or> is_space w" "C = w # ws"
    by (cases C) (fastforce simp: Cons_eq_append_conv lits)+
  then show ?thesis
  proof cases
    case 1
    with assms(2) show ?thesis by simp
  next
    case 2
    then have w: "w \<noteq> 115" "w \<noteq> 111" "w \<noteq> 110" using not_space_nums by auto
    from assms(1) obtain a r where b: "body = a # r" by (cases body) auto
    show ?thesis
    proof (cases r)
      case Nil
      with b 2 w show ?thesis by (simp add: lits)
    next
      case r: (Cons b' r')
      show ?thesis
      proof (cases r')
        case Nil
        with b 2 w r show ?thesis by (simp add: lits)
      next
        case r': (Cons c r2)
        show ?thesis
        proof (cases r2)
          case Nil
          with b 2 w r r' show ?thesis by (simp add: lits)
        next
          case (Cons d r3)
          with b r r' assms(2) show ?thesis by (simp add: lits)
        qed
      qed
    qed
  qed
qed


lemma cleanJson_fallback: "match_json text = None \<Longrightarrow> cleanJson text = fence_chain (trim text)"
  by (simp add: cleanJson_def fence_chain_def)

lemma chain_plain:
  assumes "body \<noteq> []" "\<not> is_space (hd body)" "\<not> is_space (last body)"
    and "(C = [] \<and> \<not> endsWith body (js ''```'')) \<or> (\<exists>ws3. list_all is_space ws3 \<and> C = ws3 @ js ''```'')"
    and "\<not> startsWith body (js ''```'')"
  shows "fence_chain (body @ C) = body"
  using after_opening(2,3) [OF assms(1-4)] assms(5) by (simp add: fence_chain_def)

lemma chain_json:
  assumes "body \<noteq> []" "\<not> is_space (hd body)" "\<not> is_space (last body)"
    and "(C = [] \<and> \<not> endsWith body (js ''```'')) \<or> (\<exists>ws3. list_all is_space ws3 \<and> C = ws3 @ js ''```'')"
    and "\<not> startsWith body (js ''```'')"
    and "list_all is_space ws2"
  shows "fence_chain (js ''```json'' @ ws2 @ body @ C) = body"
proof -
  have "dropWhile is_space (ws2 @ body @ C) = body @ C"
    using assms(1,2,6) by (cases body) (auto simp: dropWhile_spaces)
  then have "replace_leading (js ''```json'') (js ''```json'' @ ws2 @ body @ C) = body @ C"
    by (simp add: replace_leading_def startsWith_iff)
  then show ?thesis
    using after_opening(2) [OF assms(1-4)] assms(5) by (simp add: fence_chain_def)
qed

lemma chain_bare:
  assumes "body \<noteq> []" "\<not> is_space (hd body)" "\<not> is_space (last body)"
    and "(C = [] \<and> \<not> endsWith body (js ''```'')) \<or> (\<exists>ws3. list_all is_space ws3 \<and> C = ws3 @ js ''```'')"
    and "ws2 = [] \<longrightarrow> \<not> startsWith body (js ''json'')"
    and "list_all is_space ws2"
  shows "fence_chain (js ''```'' @ ws2 @ body @ C) = body"
proof -
  from assms(4) have C': "C = [] \<or> (\<exists>ws3. list_all is_space ws3 \<and> C = ws3 @ js ''```'')" by blast
  have "\<not> startsWith (ws2 @ body @ C) (js ''json'')"
  proof (cases ws2)
    case Nil
    with assms(5) no_json_tag [OF assms(1) _ C'] show ?thesis by simp
  next
    case (Cons w ws)
    with assms(6) not_space_nums show ?thesis by (auto simp: lits)
  qed
  then have "\<not> startsWith (js ''```'' @ ws2 @ body @ C) (js ''```json'')"
    by (simp add: lits)
  then have 1: "replace_leading (js ''```json'') (js ''```'' @ ws2 @ body @ C) = js ''```'' @ ws2 @ body @ C"
    by (simp add: replace_leading_def)
  have "dropWhile is_space (ws2 @ body @ C) = body @ C"
    using assms(1,2,6) by (cases body) (auto simp: dropWhile_spaces)
  then have 2: "replace_leading (js ''```'') (js ''```'' @ ws2 @ body @ C) = body @ C"
    by (simp add: replace_leading_def startsWith_iff)
  show ?thesis
    using after_opening(1) [OF assms(1-4)] by (simp add: fence_chain_def 1 2)
qed

lemma chain_empty0:
  "fence_chain [] = []" "fence_chain (js ''```'') = []" "fence_chain (js ''```json'') = []"
  by (simp_all add: fence_chain_def replace_leading_def lits)

lemma chain_empty:
  assumes "list_all is_space w"
  shows "fence_chain (js ''```'' @ w @ js ''```'') = []"
    and "fence_chain (js ''```json'' @ w @ js ''```'') = []"
proof -
  have d: "dropWhile is_space (w @ [96, 96, 96]) = [96, 96, 96]"
    using assms not_space_nums by (simp add: dropWhile_spaces)
  have n: "\<not> startsWith (w @ [96, 96, 96]) [106, 115, 111, 110]"
    using assms not_space_nums by (cases w) auto
  show "fence_chain (js ''```'' @ w @ js ''```'') = []"
    using d n not_space_nums by (simp add: fence_chain_def replace_leading_def lits)
  show "fence_chain (js ''```json'' @ w @ js ''```'') = []"
    using d n not_space_nums by (simp add: fence_chain_def replace_leading_def lits)
qed

text \<open>
  C8. Take a text in which the brace/bracket scan finds nothing and which is, between
  optional white space, an optional opening fence (three backticks, or three backticks and
  "json"), a body without white space at its ends, and an optional closing fence (three
  backticks). The fences are the only ones: the body does not begin with a further fence
  (nor, right after a bare opening fence, with "json"), and with no closing fence it does
  not end with three backticks. Then \<open>cleanJson\<close> returns the body: the text without its
  fences and without the white space around them.
\<close>

theorem cleanJson_fenced:
  assumes scan: "match_json text = None"
    and decomp: "text = ws1 @ opening @ ws2 @ body @ ws3 @ closing @ ws4"
    and ws: "list_all is_space ws1" "list_all is_space ws2" "list_all is_space ws3"
      "list_all is_space ws4"
    and op: "opening = [] \<or> opening = js ''```'' \<or> opening = js ''```json''"
    and cl: "closing = [] \<or> closing = js ''```''"
    and body: "body = [] \<or> (\<not> is_space (hd body) \<and> \<not> is_space (last body))"
    and a: "opening \<noteq> js ''```'' \<longrightarrow> \<not> startsWith body (js ''```'')"
    and b: "opening = js ''```'' \<and> ws2 = [] \<longrightarrow> \<not> startsWith body (js ''json'')"
    and c: "closing = [] \<longrightarrow> \<not> endsWith body (js ''```'')"
  shows "cleanJson text = body"
proof (cases "body = []")
  case True
  have w: "list_all is_space (ws2 @ ws3)" using ws by simp
  have t: "x = [] \<or> (\<not> is_space (hd x) \<and> \<not> is_space (last x))"
    if "x = [] \<or> x = js ''```'' \<or> x = js ''```json'' \<or> x = js ''```'' @ ws2 @ ws3 @ js ''```''
        \<or> x = js ''```json'' @ ws2 @ ws3 @ js ''```''" for x
    using that not_space_nums by (auto simp: lits)
  from op cl have "fence_chain (trim text) = []"
  proof (elim disjE)
    assume "opening = []" "closing = []"
    then have "text = (ws1 @ ws2 @ ws3) @ [] @ ws4" using decomp True by simp
    then have "trim text = []" using ws by (simp only: trim_wrapped list_all_append simp_thms)
    then show ?thesis by (simp add: chain_empty0)
  next
    assume "opening = []" "closing = js ''```''"
    then have "text = (ws1 @ ws2 @ ws3) @ js ''```'' @ ws4" using decomp True by simp
    moreover have "trim ((ws1 @ ws2 @ ws3) @ js ''```'' @ ws4) = js ''```''"
      using ws t by (intro trim_wrapped) auto
    ultimately show ?thesis by (simp add: chain_empty0)
  next
    assume "opening = js ''```''" "closing = []"
    then have "text = ws1 @ js ''```'' @ (ws2 @ ws3 @ ws4)" using decomp True by simp
    moreover have "trim (ws1 @ js ''```'' @ (ws2 @ ws3 @ ws4)) = js ''```''"
      using ws t by (intro trim_wrapped) auto
    ultimately show ?thesis by (simp add: chain_empty0)
  next
    assume "opening = js ''```''" "closing = js ''```''"
    then have "text = ws1 @ (js ''```'' @ (ws2 @ ws3) @ js ''```'') @ ws4" using decomp True by simp
    moreover have "trim (ws1 @ (js ''```'' @ (ws2 @ ws3) @ js ''```'') @ ws4)
        = js ''```'' @ (ws2 @ ws3) @ js ''```''"
      using ws t by (intro trim_wrapped) auto
    ultimately show ?thesis using chain_empty(1) [OF w] by simp
  next
    assume "opening = js ''```json''" "closing = []"
    then have "text = ws1 @ js ''```json'' @ (ws2 @ ws3 @ ws4)" using decomp True by simp
    moreover have "trim (ws1 @ js ''```json'' @ (ws2 @ ws3 @ ws4)) = js ''```json''"
      using ws t by (intro trim_wrapped) auto
    ultimately show ?thesis by (simp add: chain_empty0)
  next
    assume "opening = js ''```json''" "closing = js ''```''"
    then have "text = ws1 @ (js ''```json'' @ (ws2 @ ws3) @ js ''```'') @ ws4" using decomp True by simp
    moreover have "trim (ws1 @ (js ''```json'' @ (ws2 @ ws3) @ js ''```'') @ ws4)
        = js ''```json'' @ (ws2 @ ws3) @ js ''```''"
      using ws t by (intro trim_wrapped) auto
    ultimately show ?thesis using chain_empty(2) [OF w] by simp
  qed
  with scan True show ?thesis by (simp add: cleanJson_fallback)
next
  case False
  with body have hb: "\<not> is_space (hd body)" and lb: "\<not> is_space (last body)" by auto
  define C where "C = (if closing = [] then [] else ws3 @ closing)"
  define trail where "trail = (if closing = [] then ws3 @ ws4 else ws4)"
  have tail: "ws3 @ closing @ ws4 = C @ trail" by (simp add: C_def trail_def)
  have trail: "list_all is_space trail" using ws by (simp add: trail_def)
  have Cc: "(C = [] \<and> \<not> endsWith body (js ''```'')) \<or> (\<exists>ws3. list_all is_space ws3 \<and> C = ws3 @ js ''```'')"
    using cl c ws(3) by (auto simp: C_def)
  have lastC: "\<not> is_space (last (body @ C))"
    using cl lb False not_space_nums by (auto simp: C_def lits)
  from op have "fence_chain (trim text) = body"
  proof (elim disjE)
    assume o: "opening = []"
    then have "text = (ws1 @ ws2) @ (body @ C) @ trail" using decomp tail by simp
    moreover have "trim ((ws1 @ ws2) @ (body @ C) @ trail) = body @ C"
      using ws trail hb lastC False by (intro trim_wrapped) auto
    ultimately show ?thesis
      using chain_plain [OF False hb lb Cc] a o by (simp add: lits)
  next
    assume o: "opening = js ''```''"
    then have "text = ws1 @ (js ''```'' @ ws2 @ body @ C) @ trail" using decomp tail by simp
    moreover have "trim (ws1 @ (js ''```'' @ ws2 @ body @ C) @ trail) = js ''```'' @ ws2 @ body @ C"
      using ws trail lastC False not_space_nums by (intro trim_wrapped) (auto simp: lits)
    ultimately show ?thesis
      using chain_bare [OF False hb lb Cc _ ws(2)] b o by simp
  next
    assume o: "opening = js ''```json''"
    then have "text = ws1 @ (js ''```json'' @ ws2 @ body @ C) @ trail" using decomp tail by simp
    moreover have "trim (ws1 @ (js ''```json'' @ ws2 @ body @ C) @ trail) = js ''```json'' @ ws2 @ body @ C"
      using ws trail lastC False not_space_nums by (intro trim_wrapped) (auto simp: lits)
    ultimately show ?thesis
      using chain_json [OF False hb lb Cc _ ws(2)] a o by (simp add: lits)
  qed
  with scan show ?thesis by (simp add: cleanJson_fallback)
qed

theorem cleanJson_fenced_witness:
  "match_json (js '' ```json\<newline>42 is the answer\<newline>```\<newline>'') = None
   \<and> cleanJson (js '' ```json\<newline>42 is the answer\<newline>```\<newline>'') = js ''42 is the answer''"
proof -
  have scan: "match_json (js '' ```json\<newline>42 is the answer\<newline>```\<newline>'') = None"
    by (simp add: js_Nil js_Cons jc_def)
  have decomp: "js '' ```json\<newline>42 is the answer\<newline>```\<newline>'' =
      js '' '' @ js ''```json'' @ js ''\<newline>'' @ js ''42 is the answer'' @ js ''\<newline>''
        @ js ''```'' @ js ''\<newline>''"
    by (simp add: js_Nil js_Cons)
  show ?thesis
    using scan
      cleanJson_fenced [OF scan decomp, simplified js_Nil js_Cons jc_def]
    by (simp add: js_Nil js_Cons jc_def is_space_def endsWith_def)
qed


section \<open>Properties of the use cases\<close>

lemma keys_distinct: "CACHE_KEY \<noteq> CACHE_TIME_KEY"
  by (simp add: CACHE_KEY_def CACHE_TIME_KEY_def js_Nil js_Cons jc_def)

lemma generateWithFallback_all_rejected:
  assumes "fail_through generateFn MODELS w = Some (msgs, w1)"
  shows "generateWithFallback generateFn con w =
           (Inl (Error (js ''All models failed. Details:\<newline>''
                        @ join (js ''\<newline>'') (failure_lines MODELS msgs))),
            con @ attempt_log MODELS msgs, w1)"
proof -
  have "tryModels generateFn (MODELS @ []) [] con w =
        tryModels generateFn [] ([] @ failure_lines MODELS msgs) (con @ attempt_log MODELS msgs) w1"
    using assms by (rule tryModels_fail_through)
  then show ?thesis by (simp add: generateWithFallback_def)
qed

lemma generateWithFallback_first_model:
  assumes "generateFn (js ''gemini-flash-lite-latest'') w = (Inr v, w1)"
  shows "generateWithFallback generateFn con w =
           (Inr v, con @ [Log (js ''Trying model: '' @ js ''gemini-flash-lite-latest'')], w1)"
  using assms by (simp add: generateWithFallback_def MODELS_def)

text \<open>
  C3. Called while a non-empty cached payload and a timestamp are stored and fewer than 30
  minutes have passed since that timestamp, \<open>checkMarketStatus\<close> returns the value of the
  cached payload and leaves the whole state as it is: no request is issued, nothing is
  logged. Called with an entry missing, or 30 minutes or more after the timestamp, it runs
  the fallback client once, from the console and the world of the call: its outcome is
  returned, the console and the world are those the one run leaves, and when it resolves
  both entries are overwritten, the payload with the new result and the timestamp with the
  clock value of the call.
\<close>

theorem checkMarketStatus_cache:
  "(sessionStorage s CACHE_KEY = Some cs \<and> cs \<noteq> [] \<and> sessionStorage s CACHE_TIME_KEY = Some ct
      \<and> ct \<noteq> [] \<and> parseInt p ct = Some t \<and> Date_now p (world s) - t < 30 * 60 * 1000
      \<and> JSON_parse p cs = Inr v
      \<longrightarrow> checkMarketStatus p dateStr s = (Inr v, s))
   \<and> ((sessionStorage s CACHE_KEY = None \<or> sessionStorage s CACHE_TIME_KEY = None
        \<or> (sessionStorage s CACHE_TIME_KEY = Some ct \<and> parseInt p ct = Some t
            \<and> 30 * 60 * 1000 \<le> Date_now p (world s) - t))
      \<and> generateWithFallback (status_generateFn p dateStr) (console s) (world s) = (r, con2, w2)
      \<longrightarrow> fst (checkMarketStatus p dateStr s) = r
          \<and> console (snd (checkMarketStatus p dateStr s)) = con2
          \<and> world (snd (checkMarketStatus p dateStr s)) = w2
          \<and> (\<forall>result. r = Inr result \<longrightarrow>
                sessionStorage (snd (checkMarketStatus p dateStr s)) =
                  (sessionStorage s)
                    (CACHE_KEY \<mapsto> JSON_stringify p result,
                     CACHE_TIME_KEY \<mapsto> Number_toString p (Date_now p (world s)))))"
proof (intro conjI impI)
  assume "sessionStorage s CACHE_KEY = Some cs \<and> cs \<noteq> [] \<and> sessionStorage s CACHE_TIME_KEY = Some ct
      \<and> ct \<noteq> [] \<and> parseInt p ct = Some t \<and> Date_now p (world s) - t < 30 * 60 * 1000
      \<and> JSON_parse p cs = Inr v"
  then show "checkMarketStatus p dateStr s = (Inr v, s)"
    by (simp add: checkMarketStatus_def cacheLookup_def CACHE_DURATION_def)
next
  assume a: "(sessionStorage s CACHE_KEY = None \<or> sessionStorage s CACHE_TIME_KEY = None
        \<or> (sessionStorage s CACHE_TIME_KEY = Some ct \<and> parseInt p ct = Some t
            \<and> 30 * 60 * 1000 \<le> Date_now p (world s) - t))
      \<and> generateWithFallback (status_generateFn p dateStr) (console s) (world s) = (r, con2, w2)"
  then have miss: "cacheLookup p (sessionStorage s CACHE_KEY) (sessionStorage s CACHE_TIME_KEY)
      (Date_now p (world s)) (console s) = Inl (console s)"
    by (auto simp: cacheLookup_def CACHE_DURATION_def split: option.splits)
  from a have g: "generateWithFallback (status_generateFn p dateStr) (console s) (world s) = (r, con2, w2)"
    by simp
  show "fst (checkMarketStatus p dateStr s) = r"
    using miss g by (cases r) (simp_all add: checkMarketStatus_def)
  show "console (snd (checkMarketStatus p dateStr s)) = con2"
    using miss g by (cases r) (simp_all add: checkMarketStatus_def)
  show "world (snd (checkMarketStatus p dateStr s)) = w2"
    using miss g by (cases r) (simp_all add: checkMarketStatus_def)
  show "\<forall>result. r = Inr result \<longrightarrow>
                sessionStorage (snd (checkMarketStatus p dateStr s)) =
                  (sessionStorage s)
                    (CACHE_KEY \<mapsto> JSON_stringify p result,
                     CACHE_TIME_KEY \<mapsto> Number_toString p (Date_now p (world s)))"
    using miss g by (simp add: checkMarketStatus_def)
qed

text \<open>
  C9. On a call that does not answer from the cache and whose fallback request resolves,
  the timestamp stored beside the payload is the clock value read at the entry of the
  function, whatever the clock shows in the world that the request leaves: the window is
  counted from the cache check, not from the write.
\<close>

theorem checkMarketStatus_timestamp:
  assumes "cacheLookup p (sessionStorage s CACHE_KEY) (sessionStorage s CACHE_TIME_KEY)
             (Date_now p (world s)) (console s) = Inl con1"
    and "generateWithFallback (status_generateFn p dateStr) con1 (world s) = (Inr result, con2, w2)"
  shows "sessionStorage (snd (checkMarketStatus p dateStr s)) CACHE_TIME_KEY
           = Some (Number_toString p (Date_now p (world s)))
         \<and> sessionStorage (snd (checkMarketStatus p dateStr s)) CACHE_KEY
           = Some (JSON_stringify p result)
         \<and> world (snd (checkMarketStatus p dateStr s)) = w2"
  using assms keys_distinct by (simp add: checkMarketStatus_def)

text \<open>
  C10. On a call that does not answer from the cache, if the request is rejected for every
  model of the list, \<open>checkMarketStatus\<close> is rejected with the aggregate error and the
  session storage is the one of the call: neither entry is written.
\<close>

theorem checkMarketStatus_failure_keeps_cache:
  assumes "cacheLookup p (sessionStorage s CACHE_KEY) (sessionStorage s CACHE_TIME_KEY)
             (Date_now p (world s)) (console s) = Inl con1"
    and "fail_through (status_generateFn p dateStr) MODELS (world s) = Some (msgs, w1)"
  shows "fst (checkMarketStatus p dateStr s) =
           Inl (Error (js ''All models failed. Details:\<newline>''
                       @ join (js ''\<newline>'') (failure_lines MODELS msgs)))
         \<and> sessionStorage (snd (checkMarketStatus p dateStr s)) = sessionStorage s
         \<and> world (snd (checkMarketStatus p dateStr s)) = w1"
  using assms(1) generateWithFallback_all_rejected [OF assms(2), of con1]
  by (simp add: checkMarketStatus_def)

lemma replicate_11: "replicate 11 x = [x, x, x, x, x, x, x, x, x, x, x]"
  by (simp add: eval_nat_numeral)

lemma status_reply:
  "status_generateFn (responding_platform STATUS_REPLY) dateStr m w
     = (Inr OPEN_STATUS, (fst w + 2000, Suc (snd w)))"
  by (simp add: status_generateFn_def responding_platform_def STATUS_REPLY_def OPEN_STATUS_def
      Let_def toUpperCase_def upper_ascii_def is_line_terminator_def is_space_def trim_def
      js_Nil js_Cons jc_def)

lemma status_rejected:
  "status_generateFn rejecting_platform dateStr m w
     = (Inl (RequestError (js ''quota exceeded'')), (fst w + 2000, Suc (snd w)))"
  by (simp add: status_generateFn_def rejecting_platform_def)

lemma discovery_refused:
  "discovery_generateFn (responding_platform REFUSAL) profile m w
     = (Inl (SyntaxError (js ''Unexpected token'')), (fst w + 2000, Suc (snd w)))"
proof -
  have "cleanJson REFUSAL = REFUSAL"
    by (simp add: REFUSAL_def cleanJson_def trim_def replace_leading_def is_space_def
        js_Nil js_Cons jc_def)
  moreover have "scenario_parse REFUSAL = Inl (SyntaxError (js ''Unexpected token''))"
    by (simp add: REFUSAL_def scenario_parse_def js_Nil js_Cons jc_def)
  ultimately show ?thesis
    by (simp add: discovery_generateFn_def responding_platform_def)
qed

lemma fetchYesterdayPulse_rejected:
  "fetchYesterdayPulse con w =
     (Inl (Error (js ''All models failed. Details:\<newline>''
        @ join (js ''\<newline>'') (failure_lines MODELS (replicate 11 (js ''schema is not defined''))))),
      con @ attempt_log MODELS (replicate 11 (js ''schema is not defined'')), w)"
proof -
  have "fail_through pulse_generateFn MODELS w = Some (replicate 11 (js ''schema is not defined''), w)"
    by (simp add: MODELS_def pulse_generateFn_def replicate_11)
  from generateWithFallback_all_rejected [OF this]
  show ?thesis by (simp add: fetchYesterdayPulse_def)
qed

lemma cached_state_fields:
  "sessionStorage (cached_state c) CACHE_KEY = Some CACHED_PAYLOAD"
  "sessionStorage (cached_state c) CACHE_TIME_KEY = Some (js ''5000'')"
  "console (cached_state c) = []"
  "world (cached_state c) = (c, 1)"
  using keys_distinct by (simp_all add: cached_state_def CACHED_PAYLOAD_def)

lemma scenario_builtins:
  "parse_decimal (js ''5000'') = Some 5000"
  "scenario_parse CACHED_PAYLOAD = Inr OPEN_STATUS"
  "scenario_stringify OPEN_STATUS = CACHED_PAYLOAD"
  "decimal 5000 = js ''5000''"
  "decimal 1805000 = js ''1805000''"
  "CACHED_PAYLOAD \<noteq> []" "js ''5000'' \<noteq> []"
  by (simp_all add: parse_decimal_def scenario_parse_def scenario_stringify_def decimal_def
      CACHED_PAYLOAD_def js_Nil js_Cons jc_def)

lemma platform_fields:
  "parseInt (responding_platform reply) = parse_decimal"
  "JSON_parse (responding_platform reply) = scenario_parse"
  "JSON_stringify (responding_platform reply) = scenario_stringify"
  "Number_toString (responding_platform reply) = decimal"
  "Date_now (responding_platform reply) = fst"
  "parseInt rejecting_platform = parse_decimal"
  "JSON_parse rejecting_platform = scenario_parse"
  "Date_now rejecting_platform = fst"
  by (simp_all add: responding_platform_def rejecting_platform_def)

theorem checkMarketStatus_cache_witness:
  "checkMarketStatus (responding_platform STATUS_REPLY) (js ''2026-01-05'') (cached_state 5000)
     = (Inr OPEN_STATUS, cached_state 5000)
   \<and> checkMarketStatus (responding_platform STATUS_REPLY) (js ''2026-01-05'') (cached_state 1745000)
     = (Inr OPEN_STATUS, cached_state 1745000)
   \<and> fst (checkMarketStatus (responding_platform STATUS_REPLY) (js ''2026-01-05'') (cached_state 1805000))
     = Inr OPEN_STATUS
   \<and> world (snd (checkMarketStatus (responding_platform STATUS_REPLY) (js ''2026-01-05'')
        (cached_state 1805000))) = (1807000, 2)
   \<and> sessionStorage (snd (checkMarketStatus (responding_platform STATUS_REPLY) (js ''2026-01-05'')
        (cached_state 1805000))) CACHE_TIME_KEY = Some (js ''1805000'')
   \<and> sessionStorage (snd (checkMarketStatus (responding_platform STATUS_REPLY) (js ''2026-01-05'')
        (cached_state 1805000))) CACHE_KEY = Some CACHED_PAYLOAD"
proof -
  let ?P = "responding_platform STATUS_REPLY"
  let ?D = "js ''2026-01-05''"
  have hit: "sessionStorage (cached_state c) CACHE_KEY = Some CACHED_PAYLOAD \<and> CACHED_PAYLOAD \<noteq> []
      \<and> sessionStorage (cached_state c) CACHE_TIME_KEY = Some (js ''5000'') \<and> js ''5000'' \<noteq> []
      \<and> parseInt ?P (js ''5000'') = Some 5000
      \<and> Date_now ?P (world (cached_state c)) - 5000 < 30 * 60 * 1000
      \<and> JSON_parse ?P CACHED_PAYLOAD = Inr OPEN_STATUS"
    if "c < 1805000" for c
    using that by (simp add: cached_state_fields scenario_builtins platform_fields)
  have g: "generateWithFallback (status_generateFn ?P ?D) (console (cached_state 1805000))
             (world (cached_state 1805000))
           = (Inr OPEN_STATUS, [Log (js ''Trying model: '' @ js ''gemini-flash-lite-latest'')], (1807000, 2))"
    by (simp add: cached_state_fields generateWithFallback_first_model [OF status_reply])
  have miss: "(sessionStorage (cached_state 1805000) CACHE_KEY = None
        \<or> sessionStorage (cached_state 1805000) CACHE_TIME_KEY = None
        \<or> (sessionStorage (cached_state 1805000) CACHE_TIME_KEY = Some (js ''5000'')
            \<and> parseInt ?P (js ''5000'') = Some 5000
            \<and> 30 * 60 * 1000 \<le> Date_now ?P (world (cached_state 1805000)) - 5000))
      \<and> generateWithFallback (status_generateFn ?P ?D) (console (cached_state 1805000))
             (world (cached_state 1805000))
           = (Inr OPEN_STATUS, [Log (js ''Trying model: '' @ js ''gemini-flash-lite-latest'')], (1807000, 2))"
    using g by (simp add: cached_state_fields scenario_builtins platform_fields)
  note a = checkMarketStatus_cache [where s = "cached_state 5000" and p = ?P and dateStr = ?D
      and cs = CACHED_PAYLOAD and ct = "js ''5000''" and t = 5000 and v = OPEN_STATUS,
      THEN conjunct1, rule_format, OF hit]
  note b = checkMarketStatus_cache [where s = "cached_state 1745000" and p = ?P and dateStr = ?D
      and cs = CACHED_PAYLOAD and ct = "js ''5000''" and t = 5000 and v = OPEN_STATUS,
      THEN conjunct1, rule_format, OF hit]
  note c = checkMarketStatus_cache [where s = "cached_state 1805000" and p = ?P and dateStr = ?D
      and ct = "js ''5000''" and t = 5000,
      THEN conjunct2, rule_format, OF miss]
  show ?thesis
    using a b c keys_distinct
    by (simp add: cached_state_fields scenario_builtins platform_fields)
qed

theorem checkMarketStatus_timestamp_witness:
  "sessionStorage (snd (checkMarketStatus (responding_platform STATUS_REPLY) (js ''2026-01-05'')
        (empty_state 5000))) CACHE_TIME_KEY = Some (js ''5000'')
   \<and> sessionStorage (snd (checkMarketStatus (responding_platform STATUS_REPLY) (js ''2026-01-05'')
        (empty_state 5000))) CACHE_KEY = Some CACHED_PAYLOAD
   \<and> Date_now (responding_platform STATUS_REPLY)
        (world (snd (checkMarketStatus (responding_platform STATUS_REPLY) (js ''2026-01-05'')
          (empty_state 5000)))) = 7000"
proof -
  let ?P = "responding_platform STATUS_REPLY"
  let ?D = "js ''2026-01-05''"
  have miss: "cacheLookup ?P (sessionStorage (empty_state 5000) CACHE_KEY)
      (sessionStorage (empty_state 5000) CACHE_TIME_KEY) (Date_now ?P (world (empty_state 5000)))
      (console (empty_state 5000)) = Inl []"
    by (simp add: cacheLookup_def empty_state_def)
  have g: "generateWithFallback (status_generateFn ?P ?D) [] (world (empty_state 5000))
           = (Inr OPEN_STATUS, [] @ [Log (js ''Trying model: '' @ js ''gemini-flash-lite-latest'')], (7000, 1))"
    by (simp add: empty_state_def generateWithFallback_first_model [OF status_reply])
  show ?thesis
    using checkMarketStatus_timestamp [OF miss g]
    by (simp add: empty_state_def scenario_builtins platform_fields)
qed

theorem checkMarketStatus_failure_keeps_cache_witness:
  "fst (checkMarketStatus rejecting_platform (js ''2026-01-05'') (cached_state 1805000)) =
     Inl (Error (js ''All models failed. Details:\<newline>''
                 @ join (js ''\<newline>'') (failure_lines MODELS (replicate 11 (js ''quota exceeded'')))))
   \<and> sessionStorage (snd (checkMarketStatus rejecting_platform (js ''2026-01-05'')
        (cached_state 1805000))) CACHE_KEY = Some CACHED_PAYLOAD
   \<and> sessionStorage (snd (checkMarketStatus rejecting_platform (js ''2026-01-05'')
        (cached_state 1805000))) CACHE_TIME_KEY = Some (js ''5000'')
   \<and> world (snd (checkMarketStatus rejecting_platform (js ''2026-01-05'') (cached_state 1805000)))
       = (1827000, 12)"
proof -
  let ?D = "js ''2026-01-05''"
  have miss: "cacheLookup rejecting_platform (sessionStorage (cached_state 1805000) CACHE_KEY)
      (sessionStorage (cached_state 1805000) CACHE_TIME_KEY)
      (Date_now rejecting_platform (world (cached_state 1805000)))
      (console (cached_state 1805000)) = Inl []"
    by (simp add: cacheLookup_def cached_state_fields scenario_builtins platform_fields
        CACHE_DURATION_def)
  have f: "fail_through (status_generateFn rejecting_platform ?D) MODELS (world (cached_state 1805000))
      = Some (replicate 11 (js ''quota exceeded''), (1827000, 12))"
    by (simp add: MODELS_def status_rejected cached_state_fields replicate_11)
  show ?thesis
    using checkMarketStatus_failure_keeps_cache [OF miss f]
    by (simp add: cached_state_fields)
qed

text \<open>
  C5 (as stated, refuted). When the service answers every model with a text that does not
  parse, \<open>fetchDiscoverySuggestions\<close> is not rejected with the parse error: every model is
  tried, each parse failure is recorded with the name of its model, and the caller gets
  the all-models-failed error.
\<close>

theorem parse_failure_counterexample:
  "fetchDiscoverySuggestions (responding_platform REFUSAL) CAUTIOUS_PROFILE [] (0, 0) =
    (Inl (Error (js ''All models failed. Details:\<newline>''
       @ join (js ''\<newline>'') (failure_lines MODELS (replicate 11 (js ''Unexpected token''))))),
     attempt_log MODELS (replicate 11 (js ''Unexpected token'')), (22000, 11))
   \<and> fst (fetchDiscoverySuggestions (responding_platform REFUSAL) CAUTIOUS_PROFILE [] (0, 0))
       \<noteq> Inl (SyntaxError (js ''Unexpected token''))"
proof -
  have f: "fail_through (discovery_generateFn (responding_platform REFUSAL) CAUTIOUS_PROFILE)
             MODELS (0, 0)
      = Some (replicate 11 (js ''Unexpected token''), (22000, 11))"
    by (simp add: MODELS_def discovery_refused replicate_11)
  show ?thesis
    using generateWithFallback_all_rejected [OF f, of "[]"]
    by (simp add: fetchDiscoverySuggestions_def)
qed

text \<open>
  C5 (amended). In a use case that parses the response, such as
  \<open>fetchDiscoverySuggestions\<close>, the parsing is done inside the request function that the
  fallback client runs. When the response text of a model fails to parse, after rejected
  earlier models, the parse error is the failure of that candidate: the console holds the
  warning "Model <model> failed: <message of the parse error>" right after the attempt,
  the run goes on with the models that are left and with that line recorded, and a
  rejection that reaches the caller is the all-models-failed error, whose message lists
  that line after the lines of the earlier models.
\<close>

theorem parse_failure_is_candidate_failure:
  assumes "MODELS = pre @ model # rest"
    and "fail_through (discovery_generateFn p profile) pre w = Some (msgs, w1)"
    and "generateContent p
           \<lparr> req_model = model, req_contents = discovery_prompt profile,
             req_config = getSmartConfig model DISCOVERY_SCHEMA REBALANCER_SYSTEM_INSTRUCTION \<rparr> w1
         = (Inr response, w2)"
    and "response_text response = Some t"
    and "JSON_parse p (cleanJson t) = Inl e"
  shows "fetchDiscoverySuggestions p profile con w =
           tryModels (discovery_generateFn p profile) rest
             (failure_lines pre msgs @ [js ''Model '' @ model @ js '' failed: '' @ message e])
             (con @ attempt_log pre msgs
                @ [Log (js ''Trying model: '' @ model),
                   Warn (js ''Model '' @ model @ js '' failed: '' @ message e)])
             w2
         \<and> (\<exists>later. fst (snd (fetchDiscoverySuggestions p profile con w)) =
               con @ attempt_log pre msgs
                 @ [Log (js ''Trying model: '' @ model),
                    Warn (js ''Model '' @ model @ js '' failed: '' @ message e)] @ later)
         \<and> (\<forall>e'. fst (fetchDiscoverySuggestions p profile con w) = Inl e' \<longrightarrow>
               (\<exists>more. e' = Error (js ''All models failed. Details:\<newline>''
                  @ join (js ''\<newline>'')
                      (failure_lines pre msgs
                         @ [js ''Model '' @ model @ js '' failed: '' @ message e] @ more))))"
proof -
  have rejected: "discovery_generateFn p profile model w1 = (Inl e, w2)"
    using assms(3-5) by (simp add: discovery_generateFn_def)
  have run: "fetchDiscoverySuggestions p profile con w =
      tryModels (discovery_generateFn p profile) (pre @ model # rest) [] con w"
    using assms(1) by (simp add: fetchDiscoverySuggestions_def generateWithFallback_def)
  show ?thesis
    unfolding run using tryModels_failed_candidate [OF assms(2) rejected] by blast
qed

theorem parse_failure_is_candidate_failure_witness:
  "generateContent (responding_platform REFUSAL)
     \<lparr> req_model = js ''gemini-flash-lite-latest'', req_contents = discovery_prompt CAUTIOUS_PROFILE,
       req_config = getSmartConfig (js ''gemini-flash-lite-latest'') DISCOVERY_SCHEMA
                      REBALANCER_SYSTEM_INSTRUCTION \<rparr> (0, 0)
     = (Inr \<lparr> response_text = Some REFUSAL \<rparr>, (2000, 1))
   \<and> JSON_parse (responding_platform REFUSAL) (cleanJson REFUSAL)
       = Inl (SyntaxError (js ''Unexpected token''))
   \<and> take 2 (fst (snd (fetchDiscoverySuggestions (responding_platform REFUSAL) CAUTIOUS_PROFILE
                        [] (0, 0))))
       = [Log (js ''Trying model: gemini-flash-lite-latest''),
          Warn (js ''Model gemini-flash-lite-latest failed: Unexpected token'')]
   \<and> fst (fetchDiscoverySuggestions (responding_platform REFUSAL) CAUTIOUS_PROFILE [] (0, 0))
       = Inl (Error (js ''All models failed. Details:\<newline>''
           @ join (js ''\<newline>'')
               (failure_lines MODELS (replicate 11 (js ''Unexpected token'')))))"
proof -
  let ?P = "responding_platform REFUSAL"
  let ?m = "js ''gemini-flash-lite-latest''"
  have h0: "MODELS = [] @ ?m # tl MODELS"
    by (simp add: MODELS_def)
  have h1: "fail_through (discovery_generateFn ?P CAUTIOUS_PROFILE) [] (0, 0) = Some ([], (0, 0))"
    by simp
  have h2: "generateContent ?P
     \<lparr> req_model = ?m, req_contents = discovery_prompt CAUTIOUS_PROFILE,
       req_config = getSmartConfig ?m DISCOVERY_SCHEMA REBALANCER_SYSTEM_INSTRUCTION \<rparr> (0, 0)
     = (Inr \<lparr> response_text = Some REFUSAL \<rparr>, (2000, 1))"
    by (simp add: responding_platform_def)
  have h3: "response_text \<lparr> response_text = Some REFUSAL \<rparr> = Some REFUSAL"
    by simp
  have h4: "JSON_parse ?P (cleanJson REFUSAL) = Inl (SyntaxError (js ''Unexpected token''))"
    using discovery_refused [of CAUTIOUS_PROFILE ?m "(0, 0)"]
    by (simp add: discovery_generateFn_def responding_platform_def)
  note inst = parse_failure_is_candidate_failure [OF h0 h1 h2 h3 h4, of "[]"]
  from inst obtain later where
    con: "fst (snd (fetchDiscoverySuggestions ?P CAUTIOUS_PROFILE [] (0, 0))) =
       [Log (js ''Trying model: '' @ ?m),
        Warn (js ''Model '' @ ?m @ js '' failed: '' @ js ''Unexpected token'')] @ later"
    by auto
  have failed: "fst (fetchDiscoverySuggestions ?P CAUTIOUS_PROFILE [] (0, 0))
       = Inl (Error (js ''All models failed. Details:\<newline>''
           @ join (js ''\<newline>'')
               (failure_lines MODELS (replicate 11 (js ''Unexpected token'')))))"
  proof -
    have "fail_through (discovery_generateFn ?P CAUTIOUS_PROFILE) MODELS (0, 0)
        = Some (replicate 11 (js ''Unexpected token''), (22000, 11))"
      by (simp add: MODELS_def discovery_refused replicate_11)
    from generateWithFallback_all_rejected [OF this, of "[]"]
    show ?thesis by (simp add: fetchDiscoverySuggestions_def)
  qed
  with h2 h4 con show ?thesis
    by (simp add: js_Nil js_Cons)
qed

end
